theory Spec2Isabelle
  imports Main "HOL-Library.Sublist" "HOL-Library.AList" "HOL-Library.Multiset"
begin

section \<open>Common types\<close>

text \<open>
  Python strings are modelled as \<open>string\<close>, every \<open>char\<close> standing for one code point
  below 256.  Exceptions are values of the type \<open>error\<close>; a function that may raise
  returns \<open>error + 'a\<close> with \<open>Inl\<close> for the exception.
\<close>

datatype error =
    ValueError
  | TypeError
  | IndexError
  | PermissionError
  | NotADirectoryError
  | IsADirectoryError
  | FileNotFoundError
  | ZeroDivisionError
  | AttributeError
  | DisambiguationError
  | NameError
  | OtherError string

section \<open>The information loader of \<open>query.py\<close>\<close>

subsection \<open>File system and pickling\<close>

text \<open>
  The part of the operating system the loader talks to: a file system mapping a path to a
  directory or to a file with its content, together with the trace of the operations
  the loader issued (\<open>os.path.exists\<close>, \<open>open(..., 'rb')\<close>, \<open>open(..., 'wb')\<close>) and of
  the calls of the producer \<open>process_function\<close>.  The file content \<open>'b\<close> is whatever
  \<open>pickle.dump\<close> writes.
\<close>

datatype 'b node = Dir | File 'b

datatype event = Exists string | Read string | Write string | Produce

record 'b world =
  fs :: "string \<rightharpoonup> 'b node"
  trace :: "event list"

text \<open>
  The loader object.  \<open>data\<close> is a Python value, \<open>None\<close> standing for Python's
  \<open>None\<close>; \<open>is_loaded\<close> is the attribute \<open>_is_loaded\<close>.
\<close>

record 'a loader =
  save_location :: string
  overwrite_data :: bool
  is_loaded :: bool
  data :: "'a option"

text \<open>
  What the class leaves open: the pickle codec and the abstract method
  \<open>process_function\<close> of the subclass, which reads the environment and returns a value
  or raises.
\<close>

record ('a, 'b) loader_env =
  pickle_dumps :: "'a option \<Rightarrow> 'b"
  pickle_loads :: "'b \<Rightarrow> error + 'a option"
  process_function :: "(string \<rightharpoonup> 'b node) \<Rightarrow> error + 'a option"

text \<open>\<open>os.path.dirname\<close> of \<open>posixpath\<close>: the head up to the last slash, trailing
  slashes stripped unless the head consists of slashes only.\<close>

definition dirname :: "string \<Rightarrow> string" where
  "dirname p =
     (let head = rev (dropWhile (\<lambda>c. c \<noteq> CHR ''/'') (rev p))
      in if head \<noteq> [] \<and> \<not> list_all (\<lambda>c. c = CHR ''/'') head
         then rev (dropWhile (\<lambda>c. c = CHR ''/'') (rev head))
         else head)"

definition log_event :: "event \<Rightarrow> 'b world \<Rightarrow> 'b world" where
  "log_event e w = w\<lparr>trace := trace w @ [e]\<rparr>"

text \<open>\<open>os.path.exists\<close>: false for the empty path.\<close>

definition os_path_exists :: "string \<Rightarrow> 'b world \<Rightarrow> bool \<times> 'b world" where
  "os_path_exists p w = (p \<noteq> [] \<and> fs w p \<noteq> None, log_event (Exists p) w)"

text \<open>\<open>open(p, 'rb')\<close> followed by reading the content.\<close>

definition read_file :: "string \<Rightarrow> 'b world \<Rightarrow> (error + 'b) \<times> 'b world" where
  "read_file p w =
     (case fs w p of
        None \<Rightarrow> Inl FileNotFoundError
      | Some Dir \<Rightarrow> Inl IsADirectoryError
      | Some (File b) \<Rightarrow> Inr b,
      log_event (Read p) w)"

text \<open>\<open>open(p, 'wb')\<close> followed by writing \<open>b\<close>: the parent must be a directory (the
  empty parent is the working directory) and \<open>p\<close> must not be one.\<close>

definition write_file :: "string \<Rightarrow> 'b \<Rightarrow> 'b world \<Rightarrow> (error + unit) \<times> 'b world" where
  "write_file p b w =
     (let w1 = log_event (Write p) w in
      if fs w p = Some Dir then (Inl IsADirectoryError, w1)
      else if dirname p \<noteq> [] \<and> fs w (dirname p) = None then (Inl FileNotFoundError, w1)
      else if dirname p \<noteq> [] \<and> fs w (dirname p) \<noteq> Some Dir then (Inl NotADirectoryError, w1)
      else (Inr (), w1\<lparr>fs := (fs w)(p \<mapsto> File b)\<rparr>))"

subsection \<open>\<open>InformationLoader\<close>\<close>

text \<open>\<open>InformationLoader.__init__\<close>.\<close>

definition init :: "string \<Rightarrow> bool \<Rightarrow> 'b world \<Rightarrow> (error + 'a loader) \<times> 'b world" where
  "init location overwrite w =
     (if location = [] then (Inl ValueError, w)
      else
        let (ex, w1) = os_path_exists (dirname location) w in
        if \<not> ex then (Inl NotADirectoryError, w1)
        else (Inr \<lparr>save_location = location, overwrite_data = overwrite,
                   is_loaded = False, data = None\<rparr>, w1))"

text \<open>The call \<open>self.process_function()\<close>.\<close>

definition produce :: "('a, 'b) loader_env \<Rightarrow> 'b world \<Rightarrow> (error + 'a option) \<times> 'b world" where
  "produce env w = (process_function env (fs w), log_event Produce w)"

text \<open>\<open>InformationLoader._load_or_parse\<close>; \<open>__enter__\<close> returns its result.\<close>

definition load_or_parse ::
  "('a, 'b) loader_env \<Rightarrow> 'a loader \<times> 'b world \<Rightarrow> (error + 'a option) \<times> 'a loader \<times> 'b world" where
  "load_or_parse env lw =
     (case lw of (l, w) \<Rightarrow>
      if is_loaded l then (Inr (data l), l, w)
      else if overwrite_data l then
        (case produce env w of
           (Inl e, w1) \<Rightarrow> (Inl e, l, w1)
         | (Inr v, w1) \<Rightarrow> (Inr v, l\<lparr>data := v, is_loaded := True\<rparr>, w1))
      else
        (case os_path_exists (save_location l) w of
           (True, w1) \<Rightarrow>
             (case read_file (save_location l) w1 of
                (Inl e, w2) \<Rightarrow> (Inl e, l, w2)
              | (Inr b, w2) \<Rightarrow>
                  (case pickle_loads env b of
                     Inl e \<Rightarrow> (Inl e, l, w2)
                   | Inr v \<Rightarrow> (Inr v, l\<lparr>data := v, is_loaded := True\<rparr>, w2)))
         | (False, w1) \<Rightarrow>
             (case produce env w1 of
                (Inl e, w2) \<Rightarrow> (Inl e, l, w2)
              | (Inr v, w2) \<Rightarrow> (Inr v, l\<lparr>data := v, is_loaded := True\<rparr>, w2))))"

definition enter ::
  "('a, 'b) loader_env \<Rightarrow> 'a loader \<times> 'b world \<Rightarrow> (error + 'a option) \<times> 'a loader \<times> 'b world" where
  "enter env lw = load_or_parse env lw"

text \<open>\<open>InformationLoader.__exit__\<close>: the \<open>elif\<close> asks \<open>os.path.exists\<close> a second
  time.\<close>

definition exit_loader ::
  "('a, 'b) loader_env \<Rightarrow> 'a loader \<times> 'b world \<Rightarrow> (error + unit) \<times> 'a loader \<times> 'b world" where
  "exit_loader env lw =
     (case lw of (l, w) \<Rightarrow>
      case os_path_exists (save_location l) w of
        (False, w1) \<Rightarrow>
          (case write_file (save_location l) (pickle_dumps env (data l)) w1 of
             (r, w2) \<Rightarrow> (r, l, w2))
      | (True, w1) \<Rightarrow>
          (case os_path_exists (save_location l) w1 of
             (ex, w2) \<Rightarrow>
               if ex \<and> overwrite_data l then
                 (case write_file (save_location l) (pickle_dumps env (data l)) w2 of
                    (r, w3) \<Rightarrow> (r, l, w3))
               else (Inr (), l, w2)))"

text \<open>
  A process uses the loader through \<open>with\<close> statements, which may be nested
  (\<open>nations/flags.py\<close> enters the loader again inside its own block): a sequence of
  \<open>__enter__\<close> and \<open>__exit__\<close> calls.  An exception raised by either ends the
  sequence, as no caller catches it.
\<close>

datatype op = Enter | Exit

fun step ::
  "('a, 'b) loader_env \<Rightarrow> op \<Rightarrow> 'a loader \<times> 'b world \<Rightarrow> (error + unit) \<times> 'a loader \<times> 'b world" where
  "step env Enter lw =
     (case enter env lw of (Inl e, lw') \<Rightarrow> (Inl e, lw') | (Inr v, lw') \<Rightarrow> (Inr (), lw'))"
| "step env Exit lw = exit_loader env lw"

fun run ::
  "('a, 'b) loader_env \<Rightarrow> op list \<Rightarrow> 'a loader \<times> 'b world \<Rightarrow> (error + unit) \<times> 'a loader \<times> 'b world" where
  "run env [] lw = (Inr (), lw)"
| "run env (x # xs) lw =
     (case step env x lw of
        (Inl e, lw') \<Rightarrow> (Inl e, lw')
      | (Inr u, lw') \<Rightarrow> run env xs lw')"

text \<open>The number of producer calls and of reads of the backing file recorded in a trace.\<close>

definition producer_calls :: "'b world \<Rightarrow> nat" where
  "producer_calls w = length (filter (\<lambda>e. e = Produce) (trace w))"

definition store_reads :: "'b world \<Rightarrow> nat" where
  "store_reads w = length (filter (\<lambda>e. case e of Read p \<Rightarrow> True | _ \<Rightarrow> False) (trace w))"

section \<open>String operations of the Python library\<close>

text \<open>\<open>str.lower\<close> on code points below 256: the letters A to Z and the
  capital letters from 192 to 222, the multiplication sign 215 apart.\<close>

definition lower_char :: "char \<Rightarrow> char" where
  "lower_char c =
     (let n = (of_char c :: nat)
      in if (65 \<le> n \<and> n \<le> 90) \<or> (192 \<le> n \<and> n \<le> 222 \<and> n \<noteq> 215)
         then char_of (n + 32) else c)"

definition lower :: "string \<Rightarrow> string" where
  "lower s = map lower_char s"

text \<open>The operator \<open>in\<close> on two strings: \<open>str_in a b\<close> is \<open>a in b\<close>.\<close>

fun str_in :: "string \<Rightarrow> string \<Rightarrow> bool" where
  "str_in a [] = (a = [])"
| "str_in a (y # ys) = (prefix a (y # ys) \<or> str_in a ys)"

text \<open>\<open>str.isspace\<close> of one character, which is also the class \<open>\s\<close> of \<open>re\<close>.\<close>

definition is_space :: "char \<Rightarrow> bool" where
  "is_space c =
     (let n = (of_char c :: nat)
      in (9 \<le> n \<and> n \<le> 13) \<or> (28 \<le> n \<and> n \<le> 32) \<or> n = 133 \<or> n = 160)"

definition is_digit :: "char \<Rightarrow> bool" where
  "is_digit c = (let n = (of_char c :: nat) in 48 \<le> n \<and> n \<le> 57)"

definition strip :: "string \<Rightarrow> string" where
  "strip s = rev (dropWhile is_space (rev (dropWhile is_space s)))"

text \<open>\<open>str.split(sep)\<close> for a separator that is not empty.\<close>

function split_on :: "string \<Rightarrow> string \<Rightarrow> string list" where
  "split_on sep [] = [[]]"
| "split_on sep (x # xs) =
     (if sep \<noteq> [] \<and> prefix sep (x # xs)
      then [] # split_on sep (drop (length sep) (x # xs))
      else (case split_on sep xs of
              w # ws \<Rightarrow> (x # w) # ws
            | [] \<Rightarrow> [[x]]))"
  by pat_completeness auto
termination
  by (relation "measure (\<lambda>(sep, s). length s)") auto

text \<open>\<open>' '.join\<close>.\<close>

fun join_space :: "string list \<Rightarrow> string" where
  "join_space [] = []"
| "join_space [x] = x"
| "join_space (x # y # ys) = x @ '' '' @ join_space (y # ys)"

section \<open>The query layer of \<open>query.py\<close>\<close>

subsection \<open>Resource lists\<close>

text \<open>
  What the module takes from outside: the search of the Wikipedia API
  (\<open>wk.search(text, results = n)\<close>), the value list of \<open>_NATION_DICT\<close> built from
  \<open>pycountry\<close> when the module is imported, and the order in which \<open>list(set(xs))\<close>
  enumerates a set.
\<close>

record query_env =
  wk_search :: "string \<Rightarrow> nat \<Rightarrow> string list"
  nation_dict :: "string list list"
  list_set :: "string list \<Rightarrow> string list"

text \<open>One entry of \<open>pycountry.countries\<close>.\<close>

record country =
  name :: string
  alpha_2 :: string
  alpha_3 :: string

definition endswith :: "string \<Rightarrow> string \<Rightarrow> bool" where
  "endswith s e = suffix e s"

text \<open>The body of the loop of \<open>_generate_nation_dict\<close> for one country; unpacking
  the split name into two variables raises \<open>ValueError\<close> unless it has two parts.\<close>

definition nation_sublist :: "(string list \<Rightarrow> string list) \<Rightarrow> country \<Rightarrow> error + string list" where
  "nation_sublist to_list item =
     (case (if CHR '','' \<in> set (name item) \<and>
               (endswith (name item) ''of'' \<or> endswith (name item) ''of the'')
            then (case split_on '', '' (name item) of
                    [country_name, official] \<Rightarrow> Inr (country_name, join_space [official, country_name])
                  | _ \<Rightarrow> Inl ValueError)
            else Inr (name item, name item)) of
        Inl e \<Rightarrow> Inl e
      | Inr (country_name, country_official_name) \<Rightarrow>
          Inr (map lower (to_list [country_name, country_official_name, alpha_2 item, alpha_3 item])
               @ (if country_official_name = ''Brunei Darussalam'' then [''brunei''] else [])
               @ (if country_official_name = ''Democratic People's Republic of Korea''
                  then [''north korea''] else [])
               @ (if country_official_name = ''Republic of Korea'' then [''south korea''] else [])
               @ (if country_official_name = ''Cabo Verde'' then [''cape verde''] else [])))"

fun nation_sublists :: "(string list \<Rightarrow> string list) \<Rightarrow> country list \<Rightarrow> error + string list list" where
  "nation_sublists to_list [] = Inr []"
| "nation_sublists to_list (item # items) =
     (case nation_sublist to_list item of
        Inl e \<Rightarrow> Inl e
      | Inr sub \<Rightarrow>
          (case nation_sublists to_list items of
             Inl e \<Rightarrow> Inl e
           | Inr subs \<Rightarrow> Inr (sub # subs)))"

text \<open>\<open>_generate_nation_dict\<close>: the values of \<open>_NATION_DICT\<close> in the order of their
  keys, the two manual items last.  Their keys come from the loop variable \<open>indx\<close>,
  which is unbound when there is no country at all.\<close>

definition generate_nation_dict ::
  "(string list \<Rightarrow> string list) \<Rightarrow> country list \<Rightarrow> error + string list list" where
  "generate_nation_dict to_list countries =
     (case nation_sublists to_list countries of
        Inl e \<Rightarrow> Inl e
      | Inr subs \<Rightarrow>
          if countries = [] then Inl NameError
          else Inr (subs @ [[''East Timor''], [''Timor-Leste'']]))"

text \<open>\<open>_REPLACEMENT_QUERIES\<close> and \<open>_ALLOWED_SPACED_QUERIES\<close> after
  \<open>_generate_resources\<close>.\<close>

definition REPLACEMENT_QUERIES :: "string list list" where
  "REPLACEMENT_QUERIES =
     [[''nation'', ''country'', ''countries'', ''nations'', ''sovereign states''],
      [''president'', ''presidents'', ''prime minister'', ''prime ministers'']]"

definition ALLOWED_SPACED_QUERIES :: "string list" where
  "ALLOWED_SPACED_QUERIES = [''prime minister'', ''prime ministers'', ''united states'']"

text \<open>\<open>is_valid_country\<close>, the cache of answers left out.\<close>

definition is_valid_country :: "string list list \<Rightarrow> string \<Rightarrow> bool" where
  "is_valid_country nations trm = list_ex (\<lambda>grp. lower trm \<in> set grp) nations"

subsection \<open>Searching\<close>

text \<open>
  The state threaded through the query functions is the list of the requests sent to
  the search API so far, each with its text and its result limit.
\<close>

type_synonym api_log = "(string \<times> nat) list"

definition search_api :: "query_env \<Rightarrow> string \<Rightarrow> nat \<Rightarrow> api_log \<Rightarrow> string list \<times> api_log" where
  "search_api env query results s = (wk_search env query results, s @ [(query, results)])"

text \<open>\<open>_merge_query_results\<close>: the loop over the terms with its accumulator
  \<open>output_values\<close>.  A term is a string by its type, so the \<open>TypeError\<close> cannot arise.\<close>

fun merge_query_results ::
  "query_env \<Rightarrow> string list \<Rightarrow> nat \<Rightarrow> string list \<Rightarrow> api_log \<Rightarrow> string list \<times> api_log" where
  "merge_query_results env [] output_thresh output_values s = (output_values, s)"
| "merge_query_results env (trm # terms) output_thresh output_values s =
     (case search_api env trm output_thresh s of
        (output_items, s1) \<Rightarrow>
          merge_query_results env terms output_thresh (output_values @ output_items) s1)"

text \<open>\<open>search_multiple_words\<close>.\<close>

definition search_multiple_words ::
  "query_env \<Rightarrow> string list \<Rightarrow> nat \<Rightarrow> api_log \<Rightarrow> string list \<times> api_log" where
  "search_multiple_words env words output_thresh s =
     (if length words = 1 then search_api env (hd words) output_thresh s
      else
        (case merge_query_results env words output_thresh [] s of
           (complete_output, s1) \<Rightarrow>
             (map snd
                (filter (\<lambda>(lower_output, output).
                           list_all (\<lambda>trm. str_in (lower trm) lower_output) words)
                   (zip (map lower complete_output) complete_output)),
              s1)))"

text \<open>The two nested loops of \<open>_parse_query_for_conditions\<close> that look for the first
  term, and for it the first group, with the term in the group.\<close>

fun find_group :: "string list list \<Rightarrow> string list \<Rightarrow> (string \<times> string list) option" where
  "find_group groups [] = None"
| "find_group groups (trm # terms) =
     (case find (\<lambda>grp. trm \<in> set grp) groups of
        Some grp \<Rightarrow> Some (trm, grp)
      | None \<Rightarrow> find_group groups terms)"

text \<open>The first loop of \<open>list_of_search_results\<close>, which splits every term with
  a space in it that is not an allowed spaced query.\<close>

definition split_terms :: "string list \<Rightarrow> string list" where
  "split_terms terms =
     concat (map (\<lambda>trm. if CHR '' '' \<in> set trm \<and> trm \<notin> set ALLOWED_SPACED_QUERIES
                         then split_on '' '' trm else [trm]) terms)"

text \<open>The names the frame check of \<open>list_of_search_results\<close> accepts as callers.\<close>

definition internal_callers :: "string list" where
  "internal_callers = [''list_of_search_results'', ''_parse_query_for_conditions'']"

text \<open>
  The measure under which the recursion of the three functions below ends.  The rank of
  a call is fixed by the function called and by the flag \<open>bypass\<close> alone: a call of
  \<open>list_of_search_results\<close> with the flag set is above \<open>_parse_query_for_conditions\<close>,
  which is above its loop, which is above a call with the flag cleared; the loop itself
  runs down the members of one group.  The three argument tuples are the alternatives
  of a sum.
\<close>

definition call_rank ::
  "(query_env \<times> string list \<times> bool \<times> string list \<times> string \<times> api_log) +
   (query_env \<times> string list \<times> string list \<times> api_log) +
   (query_env \<times> string list \<times> string list \<times> string list \<times> api_log) \<Rightarrow> nat" where
  "call_rank c =
     (case c of
        Inl (env, terms, bypass, kwargs, caller, s) \<Rightarrow> if bypass then 3 else 0
      | Inr (Inl (env, terms, kwargs, s)) \<Rightarrow> 2
      | Inr (Inr (env, members, filter_terms, output, s)) \<Rightarrow> 1)"

definition loop_rest ::
  "(query_env \<times> string list \<times> bool \<times> string list \<times> string \<times> api_log) +
   (query_env \<times> string list \<times> string list \<times> api_log) +
   (query_env \<times> string list \<times> string list \<times> string list \<times> api_log) \<Rightarrow> nat" where
  "loop_rest c =
     (case c of
        Inr (Inr (env, members, filter_terms, output, s)) \<Rightarrow> length members
      | _ \<Rightarrow> 0)"

text \<open>
  \<open>list_of_search_results\<close> and \<open>_parse_query_for_conditions\<close> call each other;
  \<open>fan_out\<close> is the inner loop of the latter, which appends one member of the group to
  \<open>_filter_terms\<close>, searches, and removes it again.  \<open>kwargs\<close> is the list of the
  keyword names passed, \<open>caller\<close> the name of the calling function that the frame check
  reads.
\<close>

function
  list_of_search_results ::
    "query_env \<Rightarrow> string list \<Rightarrow> bool \<Rightarrow> string list \<Rightarrow> string \<Rightarrow> api_log
       \<Rightarrow> (error + string list) \<times> api_log"
and
  parse_query_for_conditions ::
    "query_env \<Rightarrow> string list \<Rightarrow> string list \<Rightarrow> api_log \<Rightarrow> (error + string list) \<times> api_log"
and
  fan_out ::
    "query_env \<Rightarrow> string list \<Rightarrow> string list \<Rightarrow> string list \<Rightarrow> api_log
       \<Rightarrow> (error + string list) \<times> api_log"
where
  "list_of_search_results env terms bypass kwargs caller s =
     (if \<not> bypass \<and> caller \<notin> set internal_callers then (Inl PermissionError, s)
      else
        let terms' = split_terms terms in
          if bypass then parse_query_for_conditions env terms' kwargs s
          else if length terms' = 1 then
            (case search_multiple_words env [lower (hd terms'), ''list''] 100 s of
               (output_list, s1) \<Rightarrow> (Inr (list_set env output_list), s1))
          else
            (case search_multiple_words env (map lower terms' @ [''list'']) 100 s of
               (output_list, s1) \<Rightarrow> (Inr (list_set env output_list), s1)))"
| "parse_query_for_conditions env terms kwargs s =
     (case find_group (nation_dict env) terms of
        Some (trm, grp) \<Rightarrow> fan_out env grp (remove1 trm terms) [] s
      | None \<Rightarrow>
          (case (if ''skip_replacement_queries'' \<notin> set kwargs
                 then find_group REPLACEMENT_QUERIES terms else None) of
             Some (trm, grp) \<Rightarrow> fan_out env grp (remove1 trm terms) [] s
           | None \<Rightarrow>
               list_of_search_results env terms False [] ''_parse_query_for_conditions'' s))"
| "fan_out env [] filter_terms output s = (Inr output, s)"
| "fan_out env (member # members) filter_terms output s =
     (case list_of_search_results env (filter_terms @ [member]) False []
             ''_parse_query_for_conditions'' s of
        (Inl e, s1) \<Rightarrow> (Inl e, s1)
      | (Inr found, s1) \<Rightarrow>
          fan_out env members (remove1 member (filter_terms @ [member])) (output @ found) s1)"
  by pat_completeness auto
termination
  by (relation "measures [call_rank, loop_rest]") (auto simp: call_rank_def loop_rest_def)

text \<open>
  Three notions in which the properties of these functions are stated.  One search
  without the dictionaries, as \<open>list_of_search_results\<close> does it once \<open>bypass\<close> is
  cleared, sends the requests \<open>plain_requests\<close> and returns the titles
  \<open>plain_titles\<close>; \<open>member_terms\<close> lists the contents of \<open>_filter_terms\<close> at the
  successive searches of the loop \<open>fan_out\<close>.
\<close>

definition plain_requests :: "string list \<Rightarrow> api_log" where
  "plain_requests terms = map (\<lambda>word. (word, 100)) (map lower (split_terms terms) @ [''list''])"

definition plain_titles :: "query_env \<Rightarrow> string list \<Rightarrow> string list" where
  "plain_titles env terms =
     list_set env (fst (search_multiple_words env (map lower (split_terms terms) @ [''list'']) 100 []))"

fun member_terms :: "string list \<Rightarrow> string list \<Rightarrow> string list list" where
  "member_terms filter_terms [] = []"
| "member_terms filter_terms (member # members) =
     (filter_terms @ [member]) # member_terms (remove1 member (filter_terms @ [member])) members"

subsection \<open>Resolving a page\<close>

text \<open>
  The argument a processing function receives: a page title, or (on one path of
  \<open>process_page\<close>) a whole list of titles.
\<close>

datatype pyarg = Str string | StrList "string list"

definition SUPPORTED_LIST_QUERIES :: "string list" where
  "SUPPORTED_LIST_QUERIES = [''us presidents'', ''sovereign states formation'']"

text \<open>Calling \<open>processing_function\<close>, which is \<open>None\<close> unless the caller passes one.\<close>

definition call_processing :: "(pyarg \<Rightarrow> error + 'r) option \<Rightarrow> pyarg \<Rightarrow> error + 'r" where
  "call_processing processing_function arg =
     (case processing_function of
        None \<Rightarrow> Inl TypeError
      | Some f \<Rightarrow> f arg)"

text \<open>
  \<open>process_page\<close>.  The first loop returns at the first supported search term.  With
  a \<open>specific_query\<close> that is not empty, the second loop takes the first result that
  passes one of its two tests; when none does, the \<open>except\<close> branch assigns the list
  of results itself.
\<close>

definition process_page ::
  "query_env \<Rightarrow> string list \<Rightarrow> string option \<Rightarrow> (pyarg \<Rightarrow> error + 'r) option \<Rightarrow> api_log
     \<Rightarrow> (error + 'r) \<times> api_log" where
  "process_page env search_terms specific_query processing_function s =
     (case find (\<lambda>search_term. search_term \<in> set SUPPORTED_LIST_QUERIES) search_terms of
        Some search_term \<Rightarrow>
          (if search_term = ''us presidents''
           then (call_processing processing_function (Str ''List of presidents of the United States''), s)
           else (call_processing processing_function
                   (Str ''List of sovereign states by dates of formation''), s))
      | None \<Rightarrow>
          (case (if specific_query \<noteq> None \<and> specific_query \<noteq> Some []
                 then
                   (case list_of_search_results env search_terms True
                           [''skip_replacement_queries''] ''process_page'' s of
                      (Inl e, s1) \<Rightarrow> (Inl e, s1)
                    | (Inr results, s1) \<Rightarrow>
                        (case find (\<lambda>check_list.
                                      str_in (the specific_query) check_list \<or>
                                      lower (the specific_query) = lower check_list) results of
                           Some check_list \<Rightarrow> (Inr (Str check_list), s1)
                         | None \<Rightarrow>
                             (case list_of_search_results env search_terms True
                                     [''skip_replacement_queries''] ''process_page'' s1 of
                                (Inl e, s2) \<Rightarrow> (Inl e, s2)
                              | (Inr again, s2) \<Rightarrow> (Inr (StrList again), s2))))
                 else
                   (case list_of_search_results env search_terms True
                           [''skip_replacement_queries''] ''process_page'' s of
                      (Inl e, s1) \<Rightarrow> (Inl e, s1)
                    | (Inr [], s1) \<Rightarrow> (Inl IndexError, s1)
                    | (Inr (first # rest), s1) \<Rightarrow> (Inr (Str first), s1))) of
             (Inl e, s') \<Rightarrow> (Inl e, s')
           | (Inr valid_list, s') \<Rightarrow>
               (case processing_function of
                  None \<Rightarrow> (Inl ValueError, s')
                | Some f \<Rightarrow> (f valid_list, s'))))"

subsection \<open>Page information\<close>

text \<open>The first substitution of \<open>_pretty_parse\<close>, \<open>re.sub('\[.{0,3}\]', '', item)\<close>:
  after an opening bracket, the longest run of at most three characters other than a
  newline that a closing bracket follows.\<close>

definition bracket_match :: "string \<Rightarrow> nat option" where
  "bracket_match cs =
     find (\<lambda>k. k < length cs \<and> cs ! k = CHR '']'' \<and> CHR 0x0A \<notin> set (take k cs)) [3, 2, 1, 0]"

function sub_short_brackets :: "string \<Rightarrow> string" where
  "sub_short_brackets [] = []"
| "sub_short_brackets (c # cs) =
     (if c = CHR ''[''
      then (case bracket_match cs of
              Some k \<Rightarrow> sub_short_brackets (drop (Suc k) cs)
            | None \<Rightarrow> c # sub_short_brackets cs)
      else c # sub_short_brackets cs)"
  by pat_completeness auto
termination
  by (relation "measure length") auto

text \<open>The second one, \<open>re.sub('\.(?!\s|$|"|\')', '. ', item)\<close>: a space after every
  full stop that something other than white space or a quotation mark follows.\<close>

fun sub_full_stops :: "string \<Rightarrow> string" where
  "sub_full_stops [] = []"
| "sub_full_stops [c] = [c]"
| "sub_full_stops (c # d # cs) =
     (if c = CHR ''.'' \<and> \<not> is_space d \<and> d \<noteq> CHR 0x22 \<and> d \<noteq> CHR 0x27
      then c # CHR '' '' # sub_full_stops (d # cs)
      else c # sub_full_stops (d # cs))"

text \<open>\<open>re.sub(r'[^\x00-\x7F]+', '', item)\<close>.\<close>

definition sub_non_ascii :: "string \<Rightarrow> string" where
  "sub_non_ascii s = filter (\<lambda>c. (of_char c :: nat) < 128) s"

text \<open>\<open>re.sub('\n', ', ', item)\<close>.\<close>

definition sub_newlines :: "string \<Rightarrow> string" where
  "sub_newlines s = concat (map (\<lambda>c. if c = CHR 0x0A then '', '' else [c]) s)"

text \<open>\<open>_pretty_parse\<close>; replacing an apostrophe by itself changes nothing.\<close>

definition pretty_parse :: "string \<Rightarrow> string" where
  "pretty_parse item = sub_newlines (sub_non_ascii (sub_full_stops (sub_short_brackets item)))"

text \<open>
  What \<open>parse_page_information\<close> takes from outside: \<open>wk.page(title, auto_suggest)\<close>,
  which gives the address of the page or raises, and the texts of the paragraphs that
  \<open>requests\<close> and \<open>BeautifulSoup\<close> find at an address.
\<close>

record page_env =
  wk_page :: "string \<Rightarrow> bool \<Rightarrow> error + string"
  page_paragraphs :: "string \<Rightarrow> error + string list"

text \<open>\<open>parse_page_information\<close>.\<close>

definition parse_page_information :: "page_env \<Rightarrow> pyarg \<Rightarrow> error + string" where
  "parse_page_information penv arg =
     (case arg of
        StrList titles \<Rightarrow> Inl TypeError
      | Str trm \<Rightarrow>
          (case wk_page penv trm False of
             Inl e \<Rightarrow> if e = DisambiguationError then Inl ValueError else Inl e
           | Inr page_url \<Rightarrow>
               (case page_paragraphs penv page_url of
                  Inl e \<Rightarrow> Inl e
                | Inr items \<Rightarrow>
                    Inr (pretty_parse
                           (concat (map strip
                              (filter (\<lambda>item. strip item \<notin> set [''Sources:'']) items)))))))"

section \<open>The table extractors\<close>

text \<open>
  Both extractors read a page through \<open>requests\<close> and \<open>BeautifulSoup\<close>.  What they
  compute on is the list of the table rows found, each row the list of the texts of its
  \<open>td\<close> cells; \<open>fetch\<close> stands for the libraries that deliver it for a page title,
  or raise.
\<close>

subsection \<open>\<open>presidents/executive_orders.py\<close>\<close>

text \<open>
  \<open>int(s)\<close> on a string: white space around, an optional sign, and decimal digits
  that single underscores may separate.  (The white space \<open>int\<close> accepts is not that
  of \<open>str.strip\<close>; the limit that recent versions put on the number of digits is left out.)
\<close>

definition is_int_space :: "char \<Rightarrow> bool" where
  "is_int_space c =
     (let n = (of_char c :: nat) in (9 \<le> n \<and> n \<le> 13) \<or> n = 32 \<or> n = 133 \<or> n = 160)"

definition int_body_ok :: "string \<Rightarrow> bool" where
  "int_body_ok b =
     (b \<noteq> [] \<and> list_all (\<lambda>c. is_digit c \<or> c = CHR ''_'') b \<and>
      hd b \<noteq> CHR ''_'' \<and> last b \<noteq> CHR ''_'' \<and> \<not> str_in ''__'' b)"

definition digits_to_int :: "string \<Rightarrow> int" where
  "digits_to_int ds = foldl (\<lambda>a c. 10 * a + (int (of_char c) - 48)) 0 ds"

definition py_int :: "string \<Rightarrow> error + int" where
  "py_int s =
     (let t = rev (dropWhile is_int_space (rev (dropWhile is_int_space s)));
          negative = (t \<noteq> [] \<and> hd t = CHR ''-'');
          body = (if t \<noteq> [] \<and> (hd t = CHR ''-'' \<or> hd t = CHR ''+'') then tl t else t)
      in if int_body_ok body
         then Inr ((if negative then - 1 else 1) * digits_to_int (filter is_digit body))
         else Inl ValueError)"

text \<open>\<open>re.sub(',', '', s)\<close>.\<close>

definition sub_commas :: "string \<Rightarrow> string" where
  "sub_commas s = filter (\<lambda>c. c \<noteq> CHR '','') s"

text \<open>
  Floating point numbers are left abstract: \<open>parse_float\<close> is \<open>float(s)\<close> and
  \<open>int_div_float n x\<close> is \<open>n / x\<close>, each with the exception it may raise.
\<close>

record 'f float_env =
  parse_float :: "string \<Rightarrow> error + 'f"
  int_div_float :: "int \<Rightarrow> 'f \<Rightarrow> error + 'f"

text \<open>An element of \<open>_tracker_list\<close>.\<close>

datatype 'f cell = S string | I int | F 'f

text \<open>The loop over the cells of one row, \<open>indx\<close> counting them; it returns
  \<open>_tracker_list\<close>.  The cell of index 5 ends the loop.\<close>

fun order_cells ::
  "'f float_env \<Rightarrow> nat \<Rightarrow> string list \<Rightarrow> 'f cell list \<Rightarrow> error + 'f cell list" where
  "order_cells fenv indx [] tracker_list = Inr tracker_list"
| "order_cells fenv indx (item # items) tracker_list =
     (if strip item \<in> set [''Sources:''] then order_cells fenv (Suc indx) items tracker_list
      else
        let tracker1 = (if indx = 1 then tracker_list @ [S (strip item)] else tracker_list) in
        case (if indx = 3
              then (case py_int (sub_commas (strip item)) of
                      Inl e \<Rightarrow> Inl e
                    | Inr n \<Rightarrow> Inr (tracker1 @ [I n]))
              else Inr tracker1) of
          Inl e \<Rightarrow> Inl e
        | Inr tracker2 \<Rightarrow>
            if indx = 5
            then (case parse_float fenv (sub_commas (strip item)) of
                    Inl e \<Rightarrow> Inl e
                  | Inr x \<Rightarrow> Inr (tracker2 @ [F x]))
            else order_cells fenv (Suc indx) items tracker2)"

text \<open>The end of the loop body: a tracker of three elements enters the dictionary.  A
  dictionary is an association list in insertion order; assigning to a key that is
  present keeps its place.\<close>

definition add_order ::
  "'f float_env \<Rightarrow> 'f cell list \<Rightarrow> (string \<times> int \<times> 'f) list \<Rightarrow> error + (string \<times> int \<times> 'f) list" where
  "add_order fenv tracker_list executive_orders =
     (if length tracker_list = 3
      then (case tracker_list of
              [S president, I n, F x] \<Rightarrow>
                (case int_div_float fenv n x of
                   Inl e \<Rightarrow> Inl e
                 | Inr average \<Rightarrow> Inr (AList.update president (n, average) executive_orders))
            | _ \<Rightarrow> Inl TypeError)
      else Inr executive_orders)"

fun order_rows ::
  "'f float_env \<Rightarrow> string list list \<Rightarrow> (string \<times> int \<times> 'f) list \<Rightarrow> error + (string \<times> int \<times> 'f) list" where
  "order_rows fenv [] executive_orders = Inr executive_orders"
| "order_rows fenv (row # rows) executive_orders =
     (case order_cells fenv 0 row [] of
        Inl e \<Rightarrow> Inl e
      | Inr tracker_list \<Rightarrow>
          (case add_order fenv tracker_list executive_orders of
             Inl e \<Rightarrow> Inl e
           | Inr executive_orders' \<Rightarrow> order_rows fenv rows executive_orders'))"

text \<open>\<open>get_list_of_executive_orders\<close>.\<close>

definition get_list_of_executive_orders ::
  "'f float_env \<Rightarrow> (string \<Rightarrow> error + string list list) \<Rightarrow> error + (string \<times> int \<times> 'f) list" where
  "get_list_of_executive_orders fenv fetch =
     (case fetch ''List of United States federal executive orders'' of
        Inl e \<Rightarrow> Inl e
      | Inr rows \<Rightarrow> order_rows fenv rows [])"

subsection \<open>\<open>nations/info.py\<close>\<close>

text \<open>\<open>re.sub('\[(.*?)\]', '', s)\<close>: from an opening bracket to the next closing one,
  no newline between them.\<close>

definition bracket_close :: "string \<Rightarrow> nat option" where
  "bracket_close cs =
     (let k = length (takeWhile (\<lambda>c. c \<noteq> CHR '']'' \<and> c \<noteq> CHR 0x0A) cs)
      in if k < length cs \<and> cs ! k = CHR '']'' then Some k else None)"

function sub_brackets :: "string \<Rightarrow> string" where
  "sub_brackets [] = []"
| "sub_brackets (c # cs) =
     (if c = CHR ''[''
      then (case bracket_close cs of
              Some k \<Rightarrow> sub_brackets (drop (Suc k) cs)
            | None \<Rightarrow> c # sub_brackets cs)
      else c # sub_brackets cs)"
  by pat_completeness auto
termination
  by (relation "measure length") auto

text \<open>The three substitutions that turn the first line of a cell into
  \<open>potential_nation\<close>.\<close>

definition clean_nation :: "string \<Rightarrow> string" where
  "clean_nation first_line =
     sub_non_ascii (sub_brackets (strip (filter (\<lambda>c. c \<noteq> CHR 0xA0) first_line)))"

text \<open>\<open>re.findall('\d{4}', date)[0]\<close>, \<open>None\<close> when the list is empty.\<close>

fun first_four_digits :: "string \<Rightarrow> string option" where
  "first_four_digits (a # b # c # d # rest) =
     (if is_digit a \<and> is_digit b \<and> is_digit c \<and> is_digit d then Some [a, b, c, d]
      else first_four_digits (b # c # d # rest))"
| "first_four_digits short = None"

text \<open>
  What the branch \<open>if is_nation:\<close> does with a cell: it ends the loop over the cells
  (\<open>Break\<close>), goes on with the next cell (\<open>Continue\<close>), or falls through to the rest of
  the loop body (\<open>Proceed\<close>), with the new \<open>_date_tracker\<close>.  \<open>is_nation\<close> is
  \<open>False\<close> (here \<open>None\<close>) or the name of the nation found in the row.
\<close>

datatype action = Break | Continue | Proceed

definition date_of_row ::
  "string \<Rightarrow> string list \<Rightarrow> string list \<Rightarrow> action \<times> string list" where
  "date_of_row nation current_value date_tracker =
     (case current_value of
        [] \<Rightarrow> (Continue, date_tracker)
      | first_line # others \<Rightarrow>
          if list_ex is_digit first_line then (Break, date_tracker @ [first_line])
          else (Continue, date_tracker))"

definition date_part ::
  "string option \<Rightarrow> nat \<Rightarrow> string list \<Rightarrow> string list \<Rightarrow> error + action \<times> string list" where
  "date_part is_nation indx current_value date_tracker =
     (case is_nation of
        None \<Rightarrow> Inr (Proceed, date_tracker)
      | Some nation \<Rightarrow>
          if nation = [] then Inr (Proceed, date_tracker)
          else if nation = ''Iceland'' then Inr (Break, date_tracker @ [''1 July 1845''])
          else if indx = 1 then Inr (date_of_row nation current_value date_tracker)
          else if indx = 2 then
            (if nation = ''China'' then Inr (Continue, date_tracker)
             else Inr (date_of_row nation current_value date_tracker))
          else if indx = 3 then
            (case current_value of
               [] \<Rightarrow> Inl IndexError
             | first_line # others \<Rightarrow> Inr (Proceed, date_tracker @ [first_line]))
          else Inr (Continue, date_tracker))"

text \<open>The loop over the cells of one row; the state is \<open>is_nation\<close> and the two
  trackers.\<close>

fun nation_cells ::
  "string list list \<Rightarrow> nat \<Rightarrow> string list \<Rightarrow> string option \<Rightarrow> string list \<times> string list
     \<Rightarrow> error + string list \<times> string list" where
  "nation_cells nations indx [] is_nation trackers = Inr trackers"
| "nation_cells nations indx (cell_text # cell_texts) is_nation (nation_tracker, date_tracker) =
     (let current_value = filter (\<lambda>val. val \<noteq> []) (split_on [CHR 0x0A] cell_text) in
      case date_part is_nation indx current_value date_tracker of
        Inl e \<Rightarrow> Inl e
      | Inr (Break, dates) \<Rightarrow> Inr (nation_tracker, dates)
      | Inr (Continue, dates) \<Rightarrow>
          nation_cells nations (Suc indx) cell_texts is_nation (nation_tracker, dates)
      | Inr (Proceed, dates) \<Rightarrow>
          (case current_value of
             [] \<Rightarrow> Inr (nation_tracker, dates)
           | first_line # others \<Rightarrow>
               let potential_nation = clean_nation first_line in
               if is_valid_country nations (strip potential_nation)
               then
                 (if potential_nation \<in> set nation_tracker then Inr (nation_tracker, dates)
                  else
                    let potential_nation' =
                      (if strip potential_nation = ''Cabo Verde'' then ''Cape Verde''
                       else potential_nation)
                    in nation_cells nations (Suc indx) cell_texts (Some potential_nation')
                         (nation_tracker @ [potential_nation'], dates))
               else nation_cells nations (Suc indx) cell_texts is_nation (nation_tracker, dates)))"

fun nation_rows ::
  "string list list \<Rightarrow> string list list \<Rightarrow> string list \<times> string list
     \<Rightarrow> error + string list \<times> string list" where
  "nation_rows nations [] trackers = Inr trackers"
| "nation_rows nations (row # rows) trackers =
     (case nation_cells nations 0 row None trackers of
        Inl e \<Rightarrow> Inl e
      | Inr trackers' \<Rightarrow> nation_rows nations rows trackers')"

text \<open>The last loop, over \<open>zip(_nation_tracker, _date_tracker)\<close>.\<close>

fun founding_loop ::
  "(string \<times> string) list \<Rightarrow> (string \<times> string) list \<Rightarrow> error + (string \<times> string) list" where
  "founding_loop [] founding_dates = Inr founding_dates"
| "founding_loop ((nation, date) # rest) founding_dates =
     (if nation \<in> set [''Czechia'', ''Palestine''] then founding_loop rest founding_dates
      else (case first_four_digits date of
              None \<Rightarrow> Inl IndexError
            | Some founding_date \<Rightarrow>
                founding_loop rest (AList.update nation founding_date founding_dates)))"

text \<open>\<open>nation_founding_date_processing_function\<close>; \<open>nations\<close> is the value list of
  \<open>_NATION_DICT\<close> that \<open>is_valid_country\<close> reads.\<close>

definition nation_founding_date_processing_function ::
  "string list list \<Rightarrow> (string \<Rightarrow> error + string list list) \<Rightarrow> string
     \<Rightarrow> error + (string \<times> string) list" where
  "nation_founding_date_processing_function nations fetch trm =
     (case fetch trm of
        Inl e \<Rightarrow> Inl e
      | Inr rows \<Rightarrow>
          (case nation_rows nations rows ([], []) of
             Inl e \<Rightarrow> Inl e
           | Inr (nation_tracker, date_tracker) \<Rightarrow>
               founding_loop (zip nation_tracker date_tracker) []))"

section \<open>Sample inputs\<close>

text \<open>Concrete environments, loaders and worlds on which the theorems below are instantiated.\<close>

definition sample_env :: "(nat, nat option) loader_env" where
  "sample_env = \<lparr>pickle_dumps = (\<lambda>v. v), pickle_loads = Inr,
                 process_function = (\<lambda>f. Inr (Some 7))\<rparr>"

definition sample_loader :: "nat loader" where
  "sample_loader = \<lparr>save_location = ''data/x.pickle'', overwrite_data = False,
                    is_loaded = False, data = None\<rparr>"

definition stored_world :: "nat option world" where
  "stored_world = \<lparr>fs = [''data'' \<mapsto> Dir, ''data/x.pickle'' \<mapsto> File (Some 3)], trace = []\<rparr>"

definition fresh_world :: "nat option world" where
  "fresh_world = \<lparr>fs = [''data'' \<mapsto> Dir], trace = []\<rparr>"

definition empty_world :: "nat option world" where
  "empty_world = \<lparr>fs = Map.empty, trace = []\<rparr>"

definition sample_countries :: "country list" where
  "sample_countries =
     [\<lparr>name = ''France'', alpha_2 = ''FR'', alpha_3 = ''FRA''\<rparr>,
      \<lparr>name = ''Japan'', alpha_2 = ''JP'', alpha_3 = ''JPN''\<rparr>]"

definition sample_nations :: "string list list" where
  "sample_nations =
     [[''france'', ''fr'', ''fra''], [''japan'', ''jp'', ''jpn''], [''East Timor''], [''Timor-Leste'']]"

definition sample_search :: "string \<Rightarrow> nat \<Rightarrow> string list" where
  "sample_search query results =
     (if query = ''kings'' then [''List of kings'', ''List of Kings of Rome'', ''Kings'']
      else if query = ''president'' then [''List of presidents of France'', ''President'']
      else if query = ''list'' then [''List of lists of lists'']
      else [])"

definition sample_query_env :: query_env where
  "sample_query_env =
     \<lparr>wk_search = sample_search, nation_dict = sample_nations, list_set = remdups\<rparr>"

definition sample_page_env :: page_env where
  "sample_page_env =
     \<lparr>wk_page = (\<lambda>title auto_suggest.
                   if title = ''List of kings'' then Inl DisambiguationError
                   else Inr (''https://en.wikipedia.org/wiki/'' @ title)),
      page_paragraphs = (\<lambda>address. Inr [''Sources:'', '' A king.[1] ''])\<rparr>"

definition sample_float_env :: "int float_env" where
  "sample_float_env =
     \<lparr>parse_float = py_int,
      int_div_float = (\<lambda>n x. if x = 0 then Inl ZeroDivisionError else Inr (n div x))\<rparr>"

definition sample_order_rows :: "string list list" where
  "sample_order_rows =
     [[''1'', ''George Washington'', ''1789'', ''8'', ''7.95'', ''1''],
      [''2'', ''John Adams'', ''1797'', ''N/A'', ''4'', ''1''],
      [''3'', ''Thomas Jefferson'', ''1801'', ''4'', ''8'', ''1'']]"

definition scenario_rows :: "string list list" where
  "scenario_rows =
     [[''France'', ''1958''], [''Sources:'', []], [''Japan'', ''1947 (current constitution)'']]"

definition sample_fetch_orders :: "string \<Rightarrow> error + string list list" where
  "sample_fetch_orders title = Inr sample_order_rows"

definition sample_nation_rows :: "string list list" where
  "sample_nation_rows =
     [[''France'', ''1958''], [''Japan'', ''since 660 BC'']]"

definition sample_fetch_nations :: "string \<Rightarrow> error + string list list" where
  "sample_fetch_nations title = Inr sample_nation_rows"

definition scenario_fetch :: "string \<Rightarrow> error + string list list" where
  "scenario_fetch title = Inr scenario_rows"


section \<open>Properties of the loader\<close>

lemma producer_calls_log [simp]:
  "producer_calls (log_event e w) = producer_calls w + (if e = Produce then 1 else 0)"
  by (simp add: producer_calls_def log_event_def)

lemma producer_calls_fs_update [simp]:
  "producer_calls (w\<lparr>fs := f\<rparr>) = producer_calls w"
  by (simp add: producer_calls_def)

lemma store_reads_log [simp]:
  "store_reads (log_event e w) = store_reads w + (case e of Read p \<Rightarrow> 1 | _ \<Rightarrow> 0)"
  by (cases e) (simp_all add: store_reads_def log_event_def)

lemma store_reads_fs_update [simp]:
  "store_reads (w\<lparr>fs := f\<rparr>) = store_reads w"
  by (simp add: store_reads_def)

lemma fs_log_event [simp]: "fs (log_event e w) = fs w"
  by (simp add: log_event_def)

lemma enter_loaded:
  "is_loaded l \<Longrightarrow> enter env (l, w) = (Inr (data l), l, w)"
  by (simp add: enter_def load_or_parse_def)

lemma write_file_counts:
  "write_file p b w = (r, w') \<Longrightarrow>
     producer_calls w' = producer_calls w \<and> store_reads w' = store_reads w"
  by (auto simp: write_file_def Let_def split: if_splits)

lemma exit_loader_counts:
  "exit_loader env (l, w) = (r, l', w') \<Longrightarrow>
     l' = l \<and> producer_calls w' = producer_calls w \<and> store_reads w' = store_reads w"
  by (auto simp: exit_loader_def os_path_exists_def split: prod.splits bool.splits if_splits
           dest!: write_file_counts)

lemma enter_calls:
  "enter env (l, w) = (r, l', w') \<Longrightarrow> producer_calls w' \<le> producer_calls w + 1"
  by (auto simp: enter_def load_or_parse_def produce_def os_path_exists_def read_file_def
           split: prod.splits bool.splits if_splits sum.splits)

lemma enter_success_loaded:
  "enter env (l, w) = (Inr v, l', w') \<Longrightarrow> is_loaded l' \<and> data l' = v"
  by (auto simp: enter_def load_or_parse_def produce_def os_path_exists_def read_file_def
           split: prod.splits bool.splits if_splits sum.splits)

lemma run_loaded:
  "is_loaded l \<Longrightarrow> run env ops (l, w) = (r, l', w') \<Longrightarrow>
     l' = l \<and> producer_calls w' = producer_calls w \<and> store_reads w' = store_reads w"
proof (induction ops arbitrary: w)
  case Nil
  then show ?case by simp
next
  case (Cons x xs)
  show ?case
  proof (cases x)
    case Enter
    with Cons.prems have "run env xs (l, w) = (r, l', w')"
      by (simp add: enter_loaded)
    with Cons.IH Cons.prems(1) show ?thesis by blast
  next
    case Exit
    obtain q w1 where ex: "exit_loader env (l, w) = (q, l, w1)"
      and c: "producer_calls w1 = producer_calls w" "store_reads w1 = store_reads w"
      using exit_loader_counts [of env l w] by (metis prod_cases3)
    show ?thesis
    proof (cases q)
      case (Inl e)
      with Cons.prems Exit ex c show ?thesis by simp
    next
      case (Inr u)
      with Cons.prems Exit ex have "run env xs (l, w1) = (r, l', w')" by simp
      with Cons.IH Cons.prems(1) c show ?thesis by metis
    qed
  qed
qed

lemma run_calls:
  "run env ops (l, w) = (r, l', w') \<Longrightarrow> producer_calls w' \<le> producer_calls w + 1"
proof (induction ops arbitrary: l w)
  case Nil
  then show ?case by simp
next
  case (Cons x xs)
  show ?case
  proof (cases x)
    case Enter
    obtain q l1 w1 where en: "enter env (l, w) = (q, l1, w1)" by (metis prod_cases3)
    show ?thesis
    proof (cases q)
      case (Inl e)
      with Cons.prems Enter en enter_calls [OF en] show ?thesis by simp
    next
      case (Inr v)
      with Cons.prems Enter en have rest: "run env xs (l1, w1) = (r, l', w')" by simp
      from en Inr have "is_loaded l1" using enter_success_loaded by blast
      from run_loaded [OF this rest] enter_calls [OF en] show ?thesis by simp
    qed
  next
    case Exit
    obtain q w1 where ex: "exit_loader env (l, w) = (q, l, w1)"
      and c: "producer_calls w1 = producer_calls w"
      using exit_loader_counts [of env l w] by (metis prod_cases3)
    show ?thesis
    proof (cases q)
      case (Inl e)
      with Cons.prems Exit ex c show ?thesis by simp
    next
      case (Inr u)
      with Cons.prems Exit ex have "run env xs (l, w1) = (r, l', w')" by simp
      from Cons.IH [OF this] c show ?thesis by simp
    qed
  qed
qed

lemma enter_hit:
  assumes "\<not> overwrite_data l" "\<not> is_loaded l" "save_location l \<noteq> []"
    and "fs w (save_location l) = Some (File b)" "pickle_loads env b = Inr v"
  shows "enter env (l, w) =
           (Inr v, l\<lparr>data := v, is_loaded := True\<rparr>,
            w\<lparr>trace := trace w @ [Exists (save_location l), Read (save_location l)]\<rparr>)"
  using assms
  by (simp add: enter_def load_or_parse_def os_path_exists_def read_file_def log_event_def)

text \<open>
  Claim C1.  A loader that does not overwrite and whose backing file holds a pickled
  value returns that value on entry, having asked whether the file exists and read it,
  and does not call the producer.  Over any sequence of entries and exits of one loader
  the producer is called at most once; and once an entry has returned a value, every
  later entry returns that same value and leaves the file system and the trace as they
  are, and no later sequence of entries and exits calls the producer or reads the file.
\<close>

theorem loader_hit_and_memoized:
  "(\<not> overwrite_data l \<and> \<not> is_loaded l \<and> save_location l \<noteq> [] \<and>
    fs w (save_location l) = Some (File b) \<and> pickle_loads env b = Inr v
      \<longrightarrow> enter env (l, w) =
            (Inr v, l\<lparr>data := v, is_loaded := True\<rparr>,
             w\<lparr>trace := trace w @ [Exists (save_location l), Read (save_location l)]\<rparr>))
   \<and> (run env ops (l, w) = (r, l', w') \<longrightarrow> producer_calls w' \<le> producer_calls w + 1)
   \<and> (enter env (l, w) = (Inr v, l1, w1) \<longrightarrow>
        is_loaded l1 \<and> data l1 = v \<and>
        (\<forall>w2. enter env (l1, w2) = (Inr v, l1, w2)) \<and>
        (\<forall>ops2 w2 r2 l2 w3. run env ops2 (l1, w2) = (r2, l2, w3) \<longrightarrow>
           l2 = l1 \<and> producer_calls w3 = producer_calls w2 \<and> store_reads w3 = store_reads w2))"
proof (intro conjI impI)
  assume "\<not> overwrite_data l \<and> \<not> is_loaded l \<and> save_location l \<noteq> [] \<and>
    fs w (save_location l) = Some (File b) \<and> pickle_loads env b = Inr v"
  then show "enter env (l, w) =
            (Inr v, l\<lparr>data := v, is_loaded := True\<rparr>,
             w\<lparr>trace := trace w @ [Exists (save_location l), Read (save_location l)]\<rparr>)"
    by (simp add: enter_hit)
next
  assume "run env ops (l, w) = (r, l', w')"
  then show "producer_calls w' \<le> producer_calls w + 1" by (rule run_calls)
next
  assume en: "enter env (l, w) = (Inr v, l1, w1)"
  then have ld: "is_loaded l1" "data l1 = v" using enter_success_loaded by blast+
  show "is_loaded l1" "data l1 = v" by fact+
  show "\<forall>w2. enter env (l1, w2) = (Inr v, l1, w2)"
    using ld by (simp add: enter_loaded)
  show "\<forall>ops2 w2 r2 l2 w3. run env ops2 (l1, w2) = (r2, l2, w3) \<longrightarrow>
           l2 = l1 \<and> producer_calls w3 = producer_calls w2 \<and> store_reads w3 = store_reads w2"
    using run_loaded [OF ld(1)] by blast
qed

theorem loader_hit_and_memoized_witness:
  "\<not> overwrite_data sample_loader \<and> \<not> is_loaded sample_loader \<and>
   save_location sample_loader \<noteq> [] \<and>
   fs stored_world (save_location sample_loader) = Some (File (Some 3)) \<and>
   pickle_loads sample_env (Some 3) = Inr (Some 3) \<and>
   enter sample_env (sample_loader, stored_world) =
     (Inr (Some 3), sample_loader\<lparr>data := Some 3, is_loaded := True\<rparr>,
      stored_world\<lparr>trace := [Exists ''data/x.pickle'', Read ''data/x.pickle'']\<rparr>) \<and>
   run sample_env [Enter, Enter, Exit, Exit, Enter, Exit] (sample_loader, fresh_world) =
     (Inr (), sample_loader\<lparr>data := Some 7, is_loaded := True\<rparr>,
      \<lparr>fs = [''data'' \<mapsto> Dir, ''data/x.pickle'' \<mapsto> File (Some 7)],
       trace = [Exists ''data/x.pickle'', Produce, Exists ''data/x.pickle'',
                Write ''data/x.pickle'', Exists ''data/x.pickle'', Exists ''data/x.pickle'',
                Exists ''data/x.pickle'', Exists ''data/x.pickle'']\<rparr>) \<and>
   producer_calls
     \<lparr>fs = [''data'' \<mapsto> Dir, ''data/x.pickle'' \<mapsto> File (Some (7::nat))],
       trace = [Exists ''data/x.pickle'', Produce, Exists ''data/x.pickle'',
                Write ''data/x.pickle'', Exists ''data/x.pickle'', Exists ''data/x.pickle'',
                Exists ''data/x.pickle'', Exists ''data/x.pickle'']\<rparr>
     \<le> producer_calls fresh_world + 1 \<and>
   (\<forall>w2. enter sample_env (sample_loader\<lparr>data := Some 3, is_loaded := True\<rparr>, w2) =
      (Inr (Some 3), sample_loader\<lparr>data := Some 3, is_loaded := True\<rparr>, w2))"
proof -
  have h: "\<not> overwrite_data sample_loader \<and> \<not> is_loaded sample_loader \<and>
      save_location sample_loader \<noteq> [] \<and>
      fs stored_world (save_location sample_loader) = Some (File (Some 3)) \<and>
      pickle_loads sample_env (Some 3) = Inr (Some 3)"
    by (simp add: sample_loader_def stored_world_def sample_env_def)
  have r: "run sample_env [Enter, Enter, Exit, Exit, Enter, Exit] (sample_loader, fresh_world) =
     (Inr (), sample_loader\<lparr>data := Some 7, is_loaded := True\<rparr>,
      \<lparr>fs = [''data'' \<mapsto> Dir, ''data/x.pickle'' \<mapsto> File (Some 7)],
       trace = [Exists ''data/x.pickle'', Produce, Exists ''data/x.pickle'',
                Write ''data/x.pickle'', Exists ''data/x.pickle'', Exists ''data/x.pickle'',
                Exists ''data/x.pickle'', Exists ''data/x.pickle'']\<rparr>)"
    by (simp add: sample_loader_def fresh_world_def sample_env_def enter_def load_or_parse_def
        exit_loader_def os_path_exists_def produce_def write_file_def read_file_def
        log_event_def dirname_def)
  note t = loader_hit_and_memoized [of sample_loader stored_world "Some 3" sample_env "Some 3"
      "[Enter, Enter, Exit, Exit, Enter, Exit]" _ _ _
      "sample_loader\<lparr>data := Some 3, is_loaded := True\<rparr>"
      "stored_world\<lparr>trace := [Exists ''data/x.pickle'', Read ''data/x.pickle'']\<rparr>"]
  note t2 = loader_hit_and_memoized [of sample_loader fresh_world _ sample_env _
      "[Enter, Enter, Exit, Exit, Enter, Exit]", THEN conjunct2, THEN conjunct1, rule_format, OF r]
  from t h have e: "enter sample_env (sample_loader, stored_world) =
     (Inr (Some 3), sample_loader\<lparr>data := Some 3, is_loaded := True\<rparr>,
      stored_world\<lparr>trace := [Exists ''data/x.pickle'', Read ''data/x.pickle'']\<rparr>)"
    by (simp add: stored_world_def sample_loader_def)
  with t have m: "\<forall>w2. enter sample_env (sample_loader\<lparr>data := Some 3, is_loaded := True\<rparr>, w2) =
      (Inr (Some 3), sample_loader\<lparr>data := Some 3, is_loaded := True\<rparr>, w2)"
    by blast
  from h e r t2 m show ?thesis by blast
qed

text \<open>
  Claim C7.  Constructing a loader for a save location whose directory does not exist
  raises \<open>NotADirectoryError\<close>; all that has happened by then is the one question
  whether the directory exists: no producer call, no write, no second attempt.
\<close>

theorem loader_missing_directory:
  assumes "location \<noteq> []"
    and "\<not> fst (os_path_exists (dirname location) w)"
  shows "(init location overwrite w :: (error + 'a loader) \<times> 'b world) =
           (Inl NotADirectoryError, w\<lparr>trace := trace w @ [Exists (dirname location)]\<rparr>)"
  using assms by (simp add: init_def os_path_exists_def log_event_def)

theorem loader_missing_directory_witness:
  "''data/x.pickle'' \<noteq> [] \<and>
   \<not> fst (os_path_exists (dirname ''data/x.pickle'') empty_world) \<and>
   (init ''data/x.pickle'' False empty_world :: (error + nat loader) \<times> nat option world) =
     (Inl NotADirectoryError, \<lparr>fs = Map.empty, trace = [Exists ''data'']\<rparr>)"
proof -
  have a: "''data/x.pickle'' \<noteq> []" by simp
  have b: "\<not> fst (os_path_exists (dirname ''data/x.pickle'') empty_world)"
    by (simp add: os_path_exists_def empty_world_def)
  have d: "dirname ''data/x.pickle'' = ''data''" by (simp add: dirname_def)
  from loader_missing_directory [OF a b, of False] a b d show ?thesis
    by (simp add: empty_world_def)
qed

lemma exit_fresh:
  assumes "save_location l \<noteq> []" "fs w (save_location l) = None"
    and "fs w (dirname (save_location l)) = Some Dir"
  shows "exit_loader env (l, w) =
           (Inr (), l,
            \<lparr>fs = (fs w)(save_location l \<mapsto> File (pickle_dumps env (data l))),
             trace = trace w @ [Exists (save_location l), Write (save_location l)]\<rparr>)"
  using assms
  by (simp add: exit_loader_def os_path_exists_def write_file_def log_event_def)

lemma enter_fresh:
  assumes "\<not> is_loaded l" "fs w (save_location l) = None"
    and "process_function env (fs w) = Inr v"
  shows "\<exists>w1. enter env (l, w) = (Inr v, l\<lparr>data := v, is_loaded := True\<rparr>, w1) \<and>
           fs w1 = fs w \<and> producer_calls w1 = producer_calls w + 1"
  using assms
  by (auto simp: enter_def load_or_parse_def os_path_exists_def produce_def)

text \<open>
  Claim C8.  For a loader whose backing file does not exist yet, one scoped use calls
  the producer once and, on exit, writes the pickled output to the save location; the
  loader itself then returns the output from memory, and any later loader on that save
  location that does not overwrite gets the producer's output back from the file
  without calling the producer, provided that unpickling the pickled output gives the
  output.
\<close>

theorem cache_round_trip:
  assumes rt: "pickle_loads env (pickle_dumps env v) = Inr v"
    and loc: "save_location l \<noteq> []"
    and dir: "fs w (dirname (save_location l)) = Some Dir"
    and fresh: "fs w (save_location l) = None" "\<not> is_loaded l"
    and prod: "process_function env (fs w) = Inr v"
  shows "\<exists>l1 w1. run env [Enter, Exit] (l, w) = (Inr (), l1, w1) \<and>
           producer_calls w1 = producer_calls w + 1 \<and>
           fs w1 = (fs w)(save_location l \<mapsto> File (pickle_dumps env v)) \<and>
           enter env (l1, w1) = (Inr v, l1, w1) \<and>
           (\<forall>later w2. save_location later = save_location l \<and> \<not> overwrite_data later \<and>
                       \<not> is_loaded later \<and> fs w2 = fs w1 \<longrightarrow>
              (\<exists>w3. enter env (later, w2) = (Inr v, later\<lparr>data := v, is_loaded := True\<rparr>, w3) \<and>
                    producer_calls w3 = producer_calls w2))"
proof -
  from enter_fresh [OF fresh(2) fresh(1) prod] obtain w0 where
    en: "enter env (l, w) = (Inr v, l\<lparr>data := v, is_loaded := True\<rparr>, w0)"
    and f0: "fs w0 = fs w" and c0: "producer_calls w0 = producer_calls w + 1"
    by blast
  let ?l1 = "l\<lparr>data := v, is_loaded := True\<rparr>"
  let ?w1 = "\<lparr>fs = (fs w0)(save_location ?l1 \<mapsto> File (pickle_dumps env (data ?l1))),
             trace = trace w0 @ [Exists (save_location ?l1), Write (save_location ?l1)]\<rparr>"
  have ex: "exit_loader env (?l1, w0) = (Inr (), ?l1, ?w1)"
    by (rule exit_fresh) (simp_all add: f0 loc fresh dir)
  have r: "run env [Enter, Exit] (l, w) = (Inr (), ?l1, ?w1)"
    by (simp add: en ex)
  have c1: "producer_calls ?w1 = producer_calls w + 1"
    using c0 by (simp add: producer_calls_def)
  have f1: "fs ?w1 = (fs w)(save_location l \<mapsto> File (pickle_dumps env v))"
    by (simp add: f0)
  have m: "enter env (?l1, ?w1) = (Inr v, ?l1, ?w1)"
    using enter_loaded [of ?l1 env ?w1] by simp
  have later: "\<exists>w3. enter env (later, w2) = (Inr v, later\<lparr>data := v, is_loaded := True\<rparr>, w3) \<and>
                    producer_calls w3 = producer_calls w2"
    if "save_location later = save_location l \<and> \<not> overwrite_data later \<and>
        \<not> is_loaded later \<and> fs w2 = fs ?w1" for later w2
  proof -
    from that f1 have "fs w2 (save_location later) = Some (File (pickle_dumps env v))" by simp
    with that loc rt have "enter env (later, w2) =
        (Inr v, later\<lparr>data := v, is_loaded := True\<rparr>,
         w2\<lparr>trace := trace w2 @ [Exists (save_location later), Read (save_location later)]\<rparr>)"
      by (intro enter_hit) simp_all
    then show ?thesis by (simp add: producer_calls_def)
  qed
  from r c1 f1 m later show ?thesis by blast
qed

theorem cache_round_trip_witness:
  "pickle_loads sample_env (pickle_dumps sample_env (Some 7)) = Inr (Some 7) \<and>
   save_location sample_loader \<noteq> [] \<and>
   fs fresh_world (dirname (save_location sample_loader)) = Some Dir \<and>
   fs fresh_world (save_location sample_loader) = None \<and> \<not> is_loaded sample_loader \<and>
   process_function sample_env (fs fresh_world) = Inr (Some 7) \<and>
   (\<exists>l1 w1. run sample_env [Enter, Exit] (sample_loader, fresh_world) = (Inr (), l1, w1) \<and>
      producer_calls w1 = producer_calls fresh_world + 1 \<and>
      fs w1 = (fs fresh_world)(''data/x.pickle'' \<mapsto> File (Some 7)) \<and>
      enter sample_env (sample_loader, w1\<lparr>trace := []\<rparr>) =
        (Inr (Some 7), sample_loader\<lparr>data := Some 7, is_loaded := True\<rparr>,
         w1\<lparr>trace := [Exists ''data/x.pickle'', Read ''data/x.pickle'']\<rparr>))"
proof -
  have h1: "pickle_loads sample_env (pickle_dumps sample_env (Some 7)) = Inr (Some 7)"
    by (simp add: sample_env_def)
  have h2: "save_location sample_loader \<noteq> []" by (simp add: sample_loader_def)
  have h3: "fs fresh_world (dirname (save_location sample_loader)) = Some Dir"
    by (simp add: sample_loader_def fresh_world_def dirname_def)
  have h4: "fs fresh_world (save_location sample_loader) = None"
    by (simp add: sample_loader_def fresh_world_def)
  have h5: "\<not> is_loaded sample_loader" by (simp add: sample_loader_def)
  have h6: "process_function sample_env (fs fresh_world) = Inr (Some 7)"
    by (simp add: sample_env_def)
  from cache_round_trip [OF h1 h2 h3 h4 h5 h6] obtain l1 w1 where
    r: "run sample_env [Enter, Exit] (sample_loader, fresh_world) = (Inr (), l1, w1)"
    and c: "producer_calls w1 = producer_calls fresh_world + 1"
    and f: "fs w1 = (fs fresh_world)(save_location sample_loader \<mapsto>
              File (pickle_dumps sample_env (Some 7)))"
    and later: "\<forall>later w2. save_location later = save_location sample_loader \<and>
                  \<not> overwrite_data later \<and> \<not> is_loaded later \<and> fs w2 = fs w1 \<longrightarrow>
              (\<exists>w3. enter sample_env (later, w2) =
                      (Inr (Some 7), later\<lparr>data := Some 7, is_loaded := True\<rparr>, w3) \<and>
                    producer_calls w3 = producer_calls w2)"
    by blast
  have f': "fs w1 = (fs fresh_world)(''data/x.pickle'' \<mapsto> File (Some 7))"
    using f by (simp add: sample_loader_def sample_env_def)
  have e: "enter sample_env (sample_loader, w1\<lparr>trace := []\<rparr>) =
        (Inr (Some 7), sample_loader\<lparr>data := Some 7, is_loaded := True\<rparr>,
         w1\<lparr>trace := [Exists ''data/x.pickle'', Read ''data/x.pickle'']\<rparr>)"
    using f' by (simp add: enter_def load_or_parse_def os_path_exists_def read_file_def
        log_event_def sample_loader_def sample_env_def fresh_world_def)
  from h1 h2 h3 h4 h5 h6 r c f' e show ?thesis by blast
qed

section \<open>Properties of the search functions\<close>

text \<open>The sample nations are what \<open>_generate_nation_dict\<close> builds from two countries.\<close>

lemma sample_nations_generated:
  "generate_nation_dict remdups sample_countries = Inr sample_nations"
  by code_simp

lemma str_in_sublist: "str_in a b = sublist a b"
  by (induction b) (auto simp: sublist_Cons_right)

lemma merge_query_results_eq:
  "merge_query_results env terms n acc s =
     (acc @ concat (map (\<lambda>t. wk_search env t n) terms), s @ map (\<lambda>t. (t, n)) terms)"
  by (induction terms arbitrary: acc s) (simp_all add: search_api_def)

lemma filter_zip_lower:
  "map snd (filter (\<lambda>(lo, out). P lo) (zip (map f xs) xs)) = filter (\<lambda>x. P (f x)) xs"
  by (induction xs) simp_all

text \<open>
  Claim C10.  Called with two or more words, \<open>search_multiple_words\<close> sends one
  request per word and returns, in their order, exactly those titles of the merged
  results in whose lower-case form the lower-case form of every word occurs as a
  substring; hence every title it returns contains each of the words, case ignored.
\<close>

theorem search_multiple_words_all_words:
  assumes "2 \<le> length words"
  shows "search_multiple_words env words n s =
           (filter (\<lambda>title. \<forall>word \<in> set words. sublist (lower word) (lower title))
              (concat (map (\<lambda>word. wk_search env word n) words)),
            s @ map (\<lambda>word. (word, n)) words)
         \<and> (\<forall>title \<in> set (fst (search_multiple_words env words n s)).
               \<forall>word \<in> set words. sublist (lower word) (lower title))"
proof -
  from assms have ne: "length words \<noteq> 1" by simp
  have eq: "search_multiple_words env words n s =
           (filter (\<lambda>title. \<forall>word \<in> set words. sublist (lower word) (lower title))
              (concat (map (\<lambda>word. wk_search env word n) words)),
            s @ map (\<lambda>word. (word, n)) words)"
    using ne
    by (simp add: search_multiple_words_def merge_query_results_eq filter_zip_lower
        list_all_iff str_in_sublist)
  show ?thesis unfolding eq by simp
qed

lemma lower_samples:
  "lower ''kings'' = ''kings''" "lower ''list'' = ''list''"
  "lower ''List of kings'' = ''list of kings''"
  "lower ''List of Kings of Rome'' = ''list of kings of rome''"
  "lower ''Kings'' = ''kings''"
  "lower ''List of lists of lists'' = ''list of lists of lists''"
  by code_simp+

text \<open>Claim C10 on the sample search with the words \<open>kings\<close> and \<open>list\<close>.\<close>

theorem search_multiple_words_all_words_witness:
  "2 \<le> length [''kings'', ''list''] \<and>
   search_multiple_words sample_query_env [''kings'', ''list''] 100 [] =
     ([''List of kings'', ''List of Kings of Rome''], [(''kings'', 100), (''list'', 100)]) \<and>
   sublist (lower ''kings'') (lower ''List of kings'') \<and>
   sublist (lower ''list'') (lower ''List of kings'') \<and>
   sublist (lower ''kings'') (lower ''List of Kings of Rome'') \<and>
   sublist (lower ''list'') (lower ''List of Kings of Rome'')"
proof -
  have a: "2 \<le> length [''kings'', ''list'']" by simp
  have e: "search_multiple_words sample_query_env [''kings'', ''list''] 100 [] =
     ([''List of kings'', ''List of Kings of Rome''], [(''kings'', 100), (''list'', 100)])"
    by (simp add: search_multiple_words_def search_api_def sample_query_env_def
        sample_search_def lower_samples)
  have "\<forall>title \<in> set (fst (search_multiple_words sample_query_env [''kings'', ''list''] 100 [])).
      \<forall>word \<in> set [''kings'', ''list'']. sublist (lower word) (lower title)"
    using search_multiple_words_all_words [OF a, of sample_query_env 100 "[]"] by blast
  then have "\<forall>title \<in> set [''List of kings'', ''List of Kings of Rome''].
      \<forall>word \<in> set [''kings'', ''list'']. sublist (lower word) (lower title)"
    by (simp only: e fst_conv)
  then have "sublist (lower ''kings'') (lower ''List of kings'') \<and>
     sublist (lower ''list'') (lower ''List of kings'') \<and>
     sublist (lower ''kings'') (lower ''List of Kings of Rome'') \<and>
     sublist (lower ''list'') (lower ''List of Kings of Rome'')"
    by simp
  with a e show ?thesis by blast
qed

lemma search_multiple_words_state:
  "search_multiple_words env ws n s =
     (fst (search_multiple_words env ws n []), s @ map (\<lambda>w. (w, n)) ws)"
proof (cases "length ws = 1")
  case True
  then obtain w where "ws = [w]" by (cases ws) auto
  then show ?thesis by (simp add: search_multiple_words_def search_api_def)
next
  case False
  then show ?thesis
    by (simp add: search_multiple_words_def merge_query_results_eq)
qed

lemma list_of_search_results_plain:
  assumes "caller \<in> set internal_callers"
  shows "list_of_search_results env terms False kwargs caller s =
           (Inr (plain_titles env terms), s @ plain_requests terms)"
proof -
  have one: "length ts = 1 \<Longrightarrow> [lower (hd ts), ''list''] = map lower ts @ [''list'']" for ts
    by (cases ts) auto
  obtain out s1 where
    smw: "search_multiple_words env (map lower (split_terms terms) @ [''list'']) 100 s = (out, s1)"
    by (cases "search_multiple_words env (map lower (split_terms terms) @ [''list'']) 100 s")
  with search_multiple_words_state [of env "map lower (split_terms terms) @ [''list'']" 100 s]
  have o: "out = fst (search_multiple_words env (map lower (split_terms terms) @ [''list'']) 100 [])"
    and s1: "s1 = s @ plain_requests terms"
    by (simp_all add: plain_requests_def)
  show ?thesis
    using assms smw o s1
    by (simp add: Let_def one plain_titles_def)
qed

lemma fan_out_eq:
  "fan_out env members filter_terms out s =
     (Inr (out @ concat (map (plain_titles env) (member_terms filter_terms members))),
      s @ concat (map plain_requests (member_terms filter_terms members)))"
proof (induction members arbitrary: filter_terms out s)
  case Nil
  show ?case by simp
next
  case (Cons m ms)
  have p: "list_of_search_results env (filter_terms @ [m]) False []
             ''_parse_query_for_conditions'' s =
           (Inr (plain_titles env (filter_terms @ [m])), s @ plain_requests (filter_terms @ [m]))"
    by (rule list_of_search_results_plain) (simp add: internal_callers_def)
  show ?case
    by (simp add: p Cons.IH del: list_of_search_results.simps)
qed

lemma parse_query_for_conditions_eq:
  "parse_query_for_conditions env terms kwargs s =
     (case find_group (nation_dict env) terms of
        Some (trm, grp) \<Rightarrow>
          (Inr (concat (map (plain_titles env) (member_terms (remove1 trm terms) grp))),
           s @ concat (map plain_requests (member_terms (remove1 trm terms) grp)))
      | None \<Rightarrow>
          (case (if ''skip_replacement_queries'' \<notin> set kwargs
                 then find_group REPLACEMENT_QUERIES terms else None) of
             Some (trm, grp) \<Rightarrow>
               (Inr (concat (map (plain_titles env) (member_terms (remove1 trm terms) grp))),
                s @ concat (map plain_requests (member_terms (remove1 trm terms) grp)))
           | None \<Rightarrow> (Inr (plain_titles env terms), s @ plain_requests terms)))"
proof -
  have p: "list_of_search_results env terms False [] ''_parse_query_for_conditions'' s =
           (Inr (plain_titles env terms), s @ plain_requests terms)"
    by (rule list_of_search_results_plain) (simp add: internal_callers_def)
  show ?thesis
    by (simp add: p fan_out_eq del: list_of_search_results.simps fan_out.simps
             split: option.splits)
qed

lemma list_of_search_results_bypass:
  "list_of_search_results env terms True kwargs caller s =
     parse_query_for_conditions env (split_terms terms) kwargs s"
  by (simp del: parse_query_for_conditions.simps)

lemma list_of_search_results_returns:
  "\<exists>titles s'. list_of_search_results env terms True kwargs caller s = (Inr titles, s')"
  unfolding list_of_search_results_bypass parse_query_for_conditions_eq
  by (simp split: option.splits)

lemma member_terms_length: "length (member_terms filter_terms members) = length members"
  by (induction members arbitrary: filter_terms) simp_all

lemma member_terms_nth:
  "k < length members \<Longrightarrow>
     mset (member_terms filter_terms members ! k) = mset filter_terms + {# members ! k #}"
proof (induction members arbitrary: filter_terms k)
  case Nil
  then show ?case by simp
next
  case (Cons m ms)
  show ?case
  proof (cases k)
    case 0
    then show ?thesis by simp
  next
    case (Suc j)
    with Cons.prems have "j < length ms" by simp
    from Cons.IH [OF this, of "remove1 m (filter_terms @ [m])"] Suc
    show ?thesis by simp
  qed
qed

lemma find_group_Some:
  "find_group groups terms = Some (t, g) \<Longrightarrow> g \<in> set groups \<and> t \<in> set g \<and> t \<in> set terms"
  by (induction terms) (auto split: option.splits simp: find_Some_iff)

lemma call_relation_rank:
  "list_of_search_results_parse_query_for_conditions_fan_out_rel c' c \<Longrightarrow>
     call_rank c' < call_rank c \<or> (call_rank c' = call_rank c \<and> loop_rest c' < loop_rest c)"
  by (erule list_of_search_results_parse_query_for_conditions_fan_out_rel.cases)
     (auto simp: call_rank_def loop_rest_def)

lemma all_calls_terminate: "list_of_search_results_parse_query_for_conditions_fan_out_dom c"
proof -
  have "All list_of_search_results_parse_query_for_conditions_fan_out_dom"
    by (relation "measures [call_rank, loop_rest]") (auto simp: call_rank_def loop_rest_def)
  then show ?thesis by blast
qed

lemma resolution_shape:
  "\<exists>tss. list_of_search_results env terms True kwargs caller s =
           (Inr (concat (map (plain_titles env) tss)), s @ concat (map plain_requests tss)) \<and>
         (tss = [split_terms terms] \<or>
          (\<exists>t grp. grp \<in> set (nation_dict env) \<union> set REPLACEMENT_QUERIES \<and> t \<in> set grp \<and>
                   tss = member_terms (remove1 t (split_terms terms)) grp))"
proof (cases "find_group (nation_dict env) (split_terms terms)")
  case (Some a)
  then obtain t g where a: "a = (t, g)" by (cases a)
  with Some find_group_Some have "g \<in> set (nation_dict env)" "t \<in> set g" by blast+
  with Some a show ?thesis
    unfolding list_of_search_results_bypass parse_query_for_conditions_eq
    by (intro exI [of _ "member_terms (remove1 t (split_terms terms)) g"]) auto
next
  case None
  show ?thesis
  proof (cases "if ''skip_replacement_queries'' \<notin> set kwargs
                then find_group REPLACEMENT_QUERIES (split_terms terms) else None")
    case inner: None
    with None show ?thesis
      unfolding list_of_search_results_bypass parse_query_for_conditions_eq
      by (intro exI [of _ "[split_terms terms]"]) simp
  next
    case (Some a)
    then obtain t g where a: "a = (t, g)" by (cases a)
    with Some find_group_Some have "g \<in> set REPLACEMENT_QUERIES" "t \<in> set g"
      by (metis option.distinct(1))+
    with Some None a show ?thesis
      unfolding list_of_search_results_bypass parse_query_for_conditions_eq
      by (intro exI [of _ "member_terms (remove1 t (split_terms terms)) g"]) auto
  qed
qed

text \<open>
  Claim C5.  Query resolution ends on every input: every argument tuple is in the
  domain of the three mutually recursive functions, and every call one of them makes
  has a smaller rank than the caller, or continues the same loop with fewer members left,
  the rank being fixed by the function and the flag \<open>bypass\<close> alone.  A call with the
  flag cleared consults no dictionary: it is one plain search.  A call with the flag set
  returns a result that is either one plain search or the searches of one loop over the
  members of one group, of the nation dictionary or of the replacement queries, each
  member searched once without the dictionaries.
\<close>

theorem query_resolution_terminates:
  "list_of_search_results_parse_query_for_conditions_fan_out_dom c \<and>
   (list_of_search_results_parse_query_for_conditions_fan_out_rel c' c \<longrightarrow>
      call_rank c' < call_rank c \<or> (call_rank c' = call_rank c \<and> loop_rest c' < loop_rest c)) \<and>
   list_of_search_results env terms False kwargs ''_parse_query_for_conditions'' s =
     (Inr (plain_titles env terms), s @ plain_requests terms) \<and>
   (\<exists>tss. list_of_search_results env terms True kwargs caller s =
            (Inr (concat (map (plain_titles env) tss)), s @ concat (map plain_requests tss)) \<and>
          (tss = [split_terms terms] \<or>
           (\<exists>t grp. grp \<in> set (nation_dict env) \<union> set REPLACEMENT_QUERIES \<and> t \<in> set grp \<and>
                    tss = member_terms (remove1 t (split_terms terms)) grp)))"
proof (intro conjI impI)
  show "list_of_search_results_parse_query_for_conditions_fan_out_dom c"
    by (rule all_calls_terminate)
next
  assume "list_of_search_results_parse_query_for_conditions_fan_out_rel c' c"
  then show "call_rank c' < call_rank c \<or>
      (call_rank c' = call_rank c \<and> loop_rest c' < loop_rest c)"
    by (rule call_relation_rank)
next
  show "list_of_search_results env terms False kwargs ''_parse_query_for_conditions'' s =
     (Inr (plain_titles env terms), s @ plain_requests terms)"
    by (rule list_of_search_results_plain) (simp add: internal_callers_def)
next
  show "\<exists>tss. list_of_search_results env terms True kwargs caller s =
            (Inr (concat (map (plain_titles env) tss)), s @ concat (map plain_requests tss)) \<and>
          (tss = [split_terms terms] \<or>
           (\<exists>t grp. grp \<in> set (nation_dict env) \<union> set REPLACEMENT_QUERIES \<and> t \<in> set grp \<and>
                    tss = member_terms (remove1 t (split_terms terms)) grp))"
    by (rule resolution_shape)
qed

lemma split_kings: "split_terms [''kings''] = [''kings'']"
  by (simp add: split_terms_def)

text \<open>Claim C5 on the call that \<open>list_of_search_results\<close> with the flag set makes to
  \<open>_parse_query_for_conditions\<close> for the term \<open>kings\<close>.\<close>

theorem query_resolution_terminates_witness:
  "list_of_search_results_parse_query_for_conditions_fan_out_rel
     (Inr (Inl (sample_query_env, [''kings''], [], [])))
     (Inl (sample_query_env, [''kings''], True, [], ''process_page'', [])) \<and>
   call_rank (Inr (Inl (sample_query_env, [''kings''], [], []))) <
     call_rank (Inl (sample_query_env, [''kings''], True, [], ''process_page'', []))"
proof -
  have r: "list_of_search_results_parse_query_for_conditions_fan_out_rel
     (Inr (Inl (sample_query_env, [''kings''], [], [])))
     (Inl (sample_query_env, [''kings''], True, [], ''process_page'', []))"
    using list_of_search_results_parse_query_for_conditions_fan_out_rel.intros(1)
      [of True "''process_page''" "[''kings'']" "[''kings'']" sample_query_env "[]" "[]"]
    by (simp add: split_kings)
  from query_resolution_terminates
    [where c' = "Inr (Inl (sample_query_env, [''kings''], [], []))"
       and c = "Inl (sample_query_env, [''kings''], True, [], ''process_page'', [])"] r
  have "call_rank (Inr (Inl (sample_query_env, [''kings''], [], []))) <
     call_rank (Inl (sample_query_env, [''kings''], True, [], ''process_page'', [])) \<or>
    (call_rank (Inr (Inl (sample_query_env, [''kings''], [], []))) =
     call_rank (Inl (sample_query_env, [''kings''], True, [], ''process_page'', [])) \<and>
     loop_rest (Inr (Inl (sample_query_env, [''kings''], [], []))) <
     loop_rest (Inl (sample_query_env, [''kings''], True, [], ''process_page'', [])))"
    by blast
  then have "call_rank (Inr (Inl (sample_query_env, [''kings''], [], []))) <
     call_rank (Inl (sample_query_env, [''kings''], True, [], ''process_page'', []))"
    by (simp add: call_rank_def)
  with r show ?thesis by blast
qed

lemma sample_plain_kings:
  "list_of_search_results sample_query_env [''kings''] True [''skip_replacement_queries'']
     ''process_page'' s =
   (Inr [''List of kings'', ''List of Kings of Rome''], s @ [(''kings'', 100), (''list'', 100)])"
proof -
  have l: "lower ''kings'' = ''kings''" "lower ''list'' = ''list''"
    "lower ''List of kings'' = ''list of kings''"
    "lower ''List of Kings of Rome'' = ''list of kings of rome''"
    "lower ''Kings'' = ''kings''"
    "lower ''List of lists of lists'' = ''list of lists of lists''"
    by code_simp+
  have g1: "find_group sample_nations [''kings''] = None"
    by (simp add: sample_nations_def)
  have t: "plain_titles sample_query_env [''kings''] = [''List of kings'', ''List of Kings of Rome'']"
    by (simp add: plain_titles_def split_terms_def search_multiple_words_def search_api_def
        sample_query_env_def sample_search_def l)
  have r: "plain_requests [''kings''] = [(''kings'', 100), (''list'', 100)]"
    by (simp add: plain_requests_def split_terms_def l)
  have n: "nation_dict sample_query_env = sample_nations" by (simp add: sample_query_env_def)
  show ?thesis
    unfolding list_of_search_results_bypass parse_query_for_conditions_eq
    by (simp add: split_kings n sample_nations_def t r)
qed

text \<open>
  Claim C2 fails as stated.  With the hint \<open>List of Kings\<close> and the results
  \<open>List of kings\<close>, \<open>List of Kings of Rome\<close>, the second result contains the hint and
  the first does not, yet \<open>process_page\<close> resolves to the first, which equals the hint
  up to case.  With a hint that no result matches, the processing function receives the
  whole list of results, not the first result.
\<close>

theorem hint_priority_counterexample:
  "fst (list_of_search_results sample_query_env [''kings''] True [''skip_replacement_queries'']
          ''process_page'' []) = Inr [''List of kings'', ''List of Kings of Rome''] \<and>
   \<not> sublist ''List of Kings'' ''List of kings'' \<and>
   sublist ''List of Kings'' ''List of Kings of Rome'' \<and>
   fst (process_page sample_query_env [''kings''] (Some ''List of Kings'') (Some Inr) []) =
     Inr (Str ''List of kings'') \<and>
   fst (process_page sample_query_env [''kings''] (Some ''Queens'') (Some Inr) []) =
     Inr (StrList [''List of kings'', ''List of Kings of Rome''])"
proof -
  have l: "lower ''List of Kings'' = ''list of kings''"
    "lower ''List of kings'' = ''list of kings''"
    "lower ''List of Kings of Rome'' = ''list of kings of rome''"
    "lower ''Queens'' = ''queens''"
    by code_simp+
  have s1: "\<not> sublist ''List of Kings'' ''List of kings''" by code_simp
  have s2: "sublist ''List of Kings'' ''List of Kings of Rome''" by code_simp
  have s3: "\<not> sublist ''Queens'' ''List of kings''" "\<not> sublist ''Queens'' ''List of Kings of Rome''"
    by code_simp+
  have p1: "fst (process_page sample_query_env [''kings''] (Some ''List of Kings'') (Some Inr) []) =
     Inr (Str ''List of kings'')"
    by (simp add: process_page_def SUPPORTED_LIST_QUERIES_def sample_plain_kings str_in_sublist
        s1 l del: list_of_search_results.simps)
  have p2: "fst (process_page sample_query_env [''kings''] (Some ''Queens'') (Some Inr) []) =
     Inr (StrList [''List of kings'', ''List of Kings of Rome''])"
    by (simp add: process_page_def SUPPORTED_LIST_QUERIES_def sample_plain_kings str_in_sublist
        s3 l del: list_of_search_results.simps)
  from s1 s2 p1 p2 show ?thesis
    by (simp add: sample_plain_kings del: list_of_search_results.simps)
qed

lemma find_first:
  "\<forall>x \<in> set pre. \<not> P x \<Longrightarrow> P c \<Longrightarrow> find P (pre @ c # post) = Some c"
  by (induction pre) simp_all

text \<open>
  Claim C2, amended.  When no search term is a supported list query and a hint that is
  not empty is supplied, \<open>process_page\<close> resolves to the first result, in the order of
  the results, that contains the hint as a substring or equals it up to case.
\<close>

theorem process_page_hint:
  assumes "\<forall>t \<in> set search_terms. t \<notin> set SUPPORTED_LIST_QUERIES"
    and "hint \<noteq> []"
    and "fst (list_of_search_results env search_terms True [''skip_replacement_queries'']
                ''process_page'' s) = Inr (pre @ c # post)"
    and "\<forall>x \<in> set pre. \<not> sublist hint x \<and> lower hint \<noteq> lower x"
    and "sublist hint c \<or> lower hint = lower c"
  shows "fst (process_page env search_terms (Some hint) (Some f) s) = f (Str c)"
proof -
  from assms(1) have sup: "find (\<lambda>t. t \<in> set SUPPORTED_LIST_QUERIES) search_terms = None"
    by (simp add: find_None_iff)
  obtain s1 where r: "list_of_search_results env search_terms True [''skip_replacement_queries'']
                ''process_page'' s = (Inr (pre @ c # post), s1)"
    using assms(3)
    by (cases "list_of_search_results env search_terms True [''skip_replacement_queries'']
                ''process_page'' s") simp
  have f: "find (\<lambda>x. str_in hint x \<or> lower hint = lower x) (pre @ c # post) = Some c"
    using assms(4,5) by (intro find_first) (simp_all add: str_in_sublist)
  show ?thesis
    using assms(2)
    by (simp add: process_page_def sup r f del: list_of_search_results.simps)
qed

text \<open>Claim C2, amended, on the sample search with the hint \<open>Rome\<close>.\<close>

theorem process_page_hint_witness:
  "''kings'' \<notin> set SUPPORTED_LIST_QUERIES \<and> ''Rome'' \<noteq> [] \<and>
   fst (list_of_search_results sample_query_env [''kings''] True [''skip_replacement_queries'']
          ''process_page'' []) = Inr ([''List of kings''] @ ''List of Kings of Rome'' # []) \<and>
   \<not> sublist ''Rome'' ''List of kings'' \<and> lower ''Rome'' \<noteq> lower ''List of kings'' \<and>
   sublist ''Rome'' ''List of Kings of Rome'' \<and>
   fst (process_page sample_query_env [''kings''] (Some ''Rome'') (Some Inr) []) =
     Inr (Str ''List of Kings of Rome'')"
proof -
  have a: "\<forall>t \<in> set [''kings'']. t \<notin> set SUPPORTED_LIST_QUERIES"
    by (simp add: SUPPORTED_LIST_QUERIES_def)
  have b: "''Rome'' \<noteq> []" by simp
  have c: "fst (list_of_search_results sample_query_env [''kings''] True
          [''skip_replacement_queries''] ''process_page'' []) =
          Inr ([''List of kings''] @ ''List of Kings of Rome'' # [])"
    by (simp add: sample_plain_kings del: list_of_search_results.simps)
  have l: "lower ''Rome'' = ''rome''" "lower ''List of kings'' = ''list of kings''"
    by code_simp+
  have s1: "\<not> sublist ''Rome'' ''List of kings''" by code_simp
  have d: "\<forall>x \<in> set [''List of kings'']. \<not> sublist ''Rome'' x \<and> lower ''Rome'' \<noteq> lower x"
    by (simp add: s1 l)
  have s2: "sublist ''Rome'' ''List of Kings of Rome''" by code_simp
  then have e: "sublist ''Rome'' ''List of Kings of Rome'' \<or>
      lower ''Rome'' = lower ''List of Kings of Rome''" by blast
  have a': "''kings'' \<notin> set SUPPORTED_LIST_QUERIES" using a by simp
  have d': "lower ''Rome'' \<noteq> lower ''List of kings''" using d by simp
  from process_page_hint [OF a b c d e, of Inr] a' b c s1 d' s2 show ?thesis by blast
qed

text \<open>
  Claim C4 fails as stated.  \<open>president\<close> belongs to the second group of replacement
  queries, as does \<open>prime minister\<close>; yet no request for another member of the group is
  sent when the query also holds a nation alias, when \<open>skip_replacement_queries\<close> is
  passed (as \<open>process_page\<close> always does), or when an earlier term belongs to another
  group.
\<close>

theorem synonym_fan_out_counterexample:
  "''president'' \<in> set (REPLACEMENT_QUERIES ! 1) \<and>
   ''prime minister'' \<in> set (REPLACEMENT_QUERIES ! 1) \<and>
   snd (list_of_search_results sample_query_env [''president'', ''france''] True [] ''main'' []) =
     [(''president'', 100), (''france'', 100), (''list'', 100),
      (''president'', 100), (''fr'', 100), (''list'', 100),
      (''president'', 100), (''fra'', 100), (''list'', 100)] \<and>
   snd (list_of_search_results sample_query_env [''president''] True
          [''skip_replacement_queries''] ''process_page'' []) =
     [(''president'', 100), (''list'', 100)] \<and>
   snd (list_of_search_results sample_query_env [''nation'', ''president''] True [] ''main'' []) =
     [(''president'', 100), (''nation'', 100), (''list'', 100),
      (''president'', 100), (''country'', 100), (''list'', 100),
      (''president'', 100), (''countries'', 100), (''list'', 100),
      (''president'', 100), (''nations'', 100), (''list'', 100),
      (''president'', 100), (''sovereign'', 100), (''states'', 100), (''list'', 100)]"
  by code_simp

text \<open>
  Claim C4, amended.  When no term of the query, after splitting, is a nation alias,
  \<open>skip_replacement_queries\<close> is not passed, and \<open>t\<close> is the first term that belongs to
  a group of replacement queries, \<open>G\<close> being the first such group, then resolution
  performs exactly one search without the dictionaries per member of \<open>G\<close>, on the
  remaining terms (in some order) followed by that member, and returns the
  concatenation of their results, whose set is the union of the results.
\<close>

theorem synonym_fan_out:
  assumes "find_group (nation_dict env) (split_terms terms) = None"
    and "''skip_replacement_queries'' \<notin> set kwargs"
    and "find_group REPLACEMENT_QUERIES (split_terms terms) = Some (t, G)"
  shows "G \<in> set REPLACEMENT_QUERIES \<and> t \<in> set G \<and> t \<in> set (split_terms terms) \<and>
         list_of_search_results env terms True kwargs caller s =
           (Inr (concat (map (plain_titles env) (member_terms (remove1 t (split_terms terms)) G))),
            s @ concat (map plain_requests (member_terms (remove1 t (split_terms terms)) G))) \<and>
         length (member_terms (remove1 t (split_terms terms)) G) = length G \<and>
         (\<forall>k < length G.
            mset (member_terms (remove1 t (split_terms terms)) G ! k) =
              mset (remove1 t (split_terms terms)) + {#G ! k#}) \<and>
         set (projr (fst (list_of_search_results env terms True kwargs caller s))) =
           (\<Union>ts \<in> set (member_terms (remove1 t (split_terms terms)) G). set (plain_titles env ts))"
proof -
  have eq: "list_of_search_results env terms True kwargs caller s =
           (Inr (concat (map (plain_titles env) (member_terms (remove1 t (split_terms terms)) G))),
            s @ concat (map plain_requests (member_terms (remove1 t (split_terms terms)) G)))"
    unfolding list_of_search_results_bypass parse_query_for_conditions_eq
    using assms by simp
  have un: "set (projr (fst (list_of_search_results env terms True kwargs caller s))) =
           (\<Union>ts \<in> set (member_terms (remove1 t (split_terms terms)) G). set (plain_titles env ts))"
    unfolding eq by simp
  from find_group_Some [OF assms(3)] eq un member_terms_length member_terms_nth
  show ?thesis by blast
qed

lemma split_president: "split_terms [''president''] = [''president'']"
  by (simp add: split_terms_def)

text \<open>Claim C4, amended, on the query \<open>president\<close>.\<close>

theorem synonym_fan_out_witness:
  "find_group (nation_dict sample_query_env) (split_terms [''president'']) = None \<and>
   ''skip_replacement_queries'' \<notin> set [] \<and>
   find_group REPLACEMENT_QUERIES (split_terms [''president'']) =
     Some (''president'', [''president'', ''presidents'', ''prime minister'', ''prime ministers'']) \<and>
   snd (list_of_search_results sample_query_env [''president''] True [] ''main'' []) =
     concat (map plain_requests
       [[''president''], [''presidents''], [''prime minister''], [''prime ministers'']])"
proof -
  have a: "find_group (nation_dict sample_query_env) (split_terms [''president'']) = None"
    by (simp add: split_president sample_query_env_def sample_nations_def)
  have b: "''skip_replacement_queries'' \<notin> set []" by simp
  have c: "find_group REPLACEMENT_QUERIES (split_terms [''president'']) =
     Some (''president'', [''president'', ''presidents'', ''prime minister'', ''prime ministers''])"
    by (simp add: split_president REPLACEMENT_QUERIES_def)
  have m: "member_terms (remove1 ''president'' (split_terms [''president'']))
             [''president'', ''presidents'', ''prime minister'', ''prime ministers''] =
           [[''president''], [''presidents''], [''prime minister''], [''prime ministers'']]"
    by (simp add: split_president)
  from synonym_fan_out [OF a b c, of "''main''" "[]"]
  have "list_of_search_results sample_query_env [''president''] True [] ''main'' [] =
      (Inr (concat (map (plain_titles sample_query_env)
         (member_terms (remove1 ''president'' (split_terms [''president'']))
             [''president'', ''presidents'', ''prime minister'', ''prime ministers'']))),
       [] @ concat (map plain_requests
         (member_terms (remove1 ''president'' (split_terms [''president'']))
             [''president'', ''presidents'', ''prime minister'', ''prime ministers''])))"
    by blast
  then have "snd (list_of_search_results sample_query_env [''president''] True [] ''main'' []) =
     concat (map plain_requests
       [[''president''], [''presidents''], [''prime minister''], [''prime ministers'']])"
    by (simp only: m snd_conv append_Nil)
  with a b c show ?thesis by blast
qed

text \<open>
  Claim C6.  When \<open>wk.page\<close>, called without suggestion, lands on a disambiguation
  page, \<open>parse_page_information\<close> raises \<open>ValueError\<close>, the error that asks for a
  specific term; so does \<open>process_page\<close> called without a hint with it as processing
  function, when the first result is such a page.
\<close>

theorem disambiguation_raises:
  assumes "wk_page penv title False = Inl DisambiguationError"
  shows "parse_page_information penv (Str title) = Inl ValueError \<and>
         ((\<forall>t \<in> set search_terms. t \<notin> set SUPPORTED_LIST_QUERIES) \<and>
          fst (list_of_search_results env search_terms True [''skip_replacement_queries'']
                 ''process_page'' s) = Inr (title # rest)
          \<longrightarrow> fst (process_page env search_terms None (Some (parse_page_information penv)) s) =
                Inl ValueError)"
proof (intro conjI impI)
  show p: "parse_page_information penv (Str title) = Inl ValueError"
    using assms by (simp add: parse_page_information_def)
  assume h: "(\<forall>t \<in> set search_terms. t \<notin> set SUPPORTED_LIST_QUERIES) \<and>
          fst (list_of_search_results env search_terms True [''skip_replacement_queries'']
                 ''process_page'' s) = Inr (title # rest)"
  then have sup: "find (\<lambda>t. t \<in> set SUPPORTED_LIST_QUERIES) search_terms = None"
    by (simp add: find_None_iff)
  obtain s1 where r: "list_of_search_results env search_terms True [''skip_replacement_queries'']
                ''process_page'' s = (Inr (title # rest), s1)"
    using h
    by (cases "list_of_search_results env search_terms True [''skip_replacement_queries'']
                ''process_page'' s") simp
  show "fst (process_page env search_terms None (Some (parse_page_information penv)) s) =
                Inl ValueError"
    by (simp add: process_page_def sup r p del: list_of_search_results.simps)
qed

text \<open>Claim C6 on the sample pages, where \<open>List of kings\<close> is a disambiguation page.\<close>

theorem disambiguation_raises_witness:
  "wk_page sample_page_env ''List of kings'' False = Inl DisambiguationError \<and>
   ''kings'' \<notin> set SUPPORTED_LIST_QUERIES \<and>
   fst (list_of_search_results sample_query_env [''kings''] True [''skip_replacement_queries'']
          ''process_page'' []) = Inr (''List of kings'' # [''List of Kings of Rome'']) \<and>
   parse_page_information sample_page_env (Str ''List of kings'') = Inl ValueError \<and>
   fst (process_page sample_query_env [''kings''] None
          (Some (parse_page_information sample_page_env)) []) = Inl ValueError"
proof -
  have a: "wk_page sample_page_env ''List of kings'' False = Inl DisambiguationError"
    by (simp add: sample_page_env_def)
  have b: "\<forall>t \<in> set [''kings'']. t \<notin> set SUPPORTED_LIST_QUERIES"
    by (simp add: SUPPORTED_LIST_QUERIES_def)
  have c: "fst (list_of_search_results sample_query_env [''kings''] True
          [''skip_replacement_queries''] ''process_page'' []) =
          Inr (''List of kings'' # [''List of Kings of Rome''])"
    by (simp add: sample_plain_kings del: list_of_search_results.simps)
  have b': "''kings'' \<notin> set SUPPORTED_LIST_QUERIES" using b by simp
  from disambiguation_raises [OF a, of "[''kings'']" sample_query_env "[]"
      "[''List of Kings of Rome'']"] a b b' c
  show ?thesis by blast
qed

section \<open>Properties of the table extractors\<close>

text \<open>
  Claim C3 fails as stated.  The second of three rows of executive orders has the count
  \<open>N/A\<close>: the extraction raises \<open>ValueError\<close>, although the other two rows alone give
  two records.  A nation whose date holds no year of four digits makes the extraction
  of the founding dates raise \<open>IndexError\<close>.
\<close>

theorem malformed_field_counterexample:
  "get_list_of_executive_orders sample_float_env sample_fetch_orders = Inl ValueError \<and>
   order_rows sample_float_env [sample_order_rows ! 0, sample_order_rows ! 2] [] =
     Inr [(''George Washington'', 8, 8), (''Thomas Jefferson'', 4, 4)] \<and>
   nation_founding_date_processing_function sample_nations sample_fetch_nations
     ''List of sovereign states by dates of formation'' = Inl IndexError"
  by code_simp

lemma order_cells_fail:
  "i \<le> 3 \<Longrightarrow> 3 - i < length cells \<Longrightarrow> strip (cells ! (3 - i)) \<noteq> ''Sources:'' \<Longrightarrow>
   py_int (sub_commas (strip (cells ! (3 - i)))) = Inl e \<Longrightarrow>
   order_cells fenv i cells tracker_list = Inl e"
proof (induction cells arbitrary: i tracker_list)
  case Nil
  then show ?case by simp
next
  case (Cons c cs)
  show ?case
  proof (cases "i = 3")
    case True
    with Cons.prems show ?thesis by simp
  next
    case False
    with Cons.prems have i: "i < 3" by simp
    then have idx: "3 - i = Suc (3 - Suc i)" by simp
    from Cons.prems idx have a: "3 - Suc i < length cs"
      and b: "strip (cs ! (3 - Suc i)) \<noteq> ''Sources:''"
      and c: "py_int (sub_commas (strip (cs ! (3 - Suc i)))) = Inl e"
      by simp_all
    from i have "Suc i \<le> 3" by simp
    note ih = Cons.IH [OF this a b c]
    from i show ?thesis by (simp add: ih Let_def)
  qed
qed

lemma order_rows_append:
  "order_rows fenv (xs @ ys) d =
     (case order_rows fenv xs d of Inl e \<Rightarrow> Inl e | Inr d' \<Rightarrow> order_rows fenv ys d')"
  by (induction xs arbitrary: d) (simp_all split: sum.splits)

lemma order_rows_fail:
  "row \<in> set rows \<Longrightarrow> order_cells fenv 0 row [] = Inl e \<Longrightarrow> \<exists>e'. order_rows fenv rows d = Inl e'"
  by (induction rows arbitrary: d) (auto split: sum.splits)

lemma founding_loop_fail:
  "(nation, date) \<in> set pairs \<Longrightarrow> nation \<notin> set [''Czechia'', ''Palestine''] \<Longrightarrow>
   first_four_digits date = None \<Longrightarrow> founding_loop pairs fd = Inl IndexError"
  by (induction pairs fd rule: founding_loop.induct) (auto split: option.splits)

text \<open>
  Claim C3, amended.  When the count of one row of executive orders does not parse as
  an integer, the whole extraction raises: it returns no partial result, and it raises
  that very error when the rows before parse.  Likewise, the loop over the founding
  dates raises \<open>IndexError\<close> when the date of one nation other than the two skipped
  ones holds no four digits in a row.  No row is skipped and nothing is logged.
\<close>

theorem malformed_field_aborts:
  "(row \<in> set rows \<and> 3 < length row \<and> strip (row ! 3) \<noteq> ''Sources:'' \<and>
    py_int (sub_commas (strip (row ! 3))) = Inl e
      \<longrightarrow> (\<exists>e'. get_list_of_executive_orders fenv (\<lambda>title. Inr rows) = Inl e') \<and>
          (\<forall>pre post d. rows = pre @ row # post \<and> order_rows fenv pre [] = Inr d
             \<longrightarrow> get_list_of_executive_orders fenv (\<lambda>title. Inr rows) = Inl e)) \<and>
   ((nation, date) \<in> set pairs \<and> nation \<notin> set [''Czechia'', ''Palestine''] \<and>
    first_four_digits date = None
      \<longrightarrow> founding_loop pairs founding_dates = Inl IndexError)"
proof (intro conjI impI allI)
  assume h: "row \<in> set rows \<and> 3 < length row \<and> strip (row ! 3) \<noteq> ''Sources:'' \<and>
    py_int (sub_commas (strip (row ! 3))) = Inl e"
  then have f: "order_cells fenv 0 row [] = Inl e"
    using order_cells_fail [of 0 row e fenv "[]"] by simp
  with h order_rows_fail [of row rows fenv e "[]"]
  show "\<exists>e'. get_list_of_executive_orders fenv (\<lambda>title. Inr rows) = Inl e'"
    by (simp add: get_list_of_executive_orders_def)
  fix pre post d
  assume "rows = pre @ row # post \<and> order_rows fenv pre [] = Inr d"
  with f show "get_list_of_executive_orders fenv (\<lambda>title. Inr rows) = Inl e"
    by (simp add: get_list_of_executive_orders_def order_rows_append)
next
  assume "(nation, date) \<in> set pairs \<and> nation \<notin> set [''Czechia'', ''Palestine''] \<and>
    first_four_digits date = None"
  then show "founding_loop pairs founding_dates = Inl IndexError"
    using founding_loop_fail by blast
qed

text \<open>Claim C3, amended, on the sample rows.\<close>

theorem malformed_field_aborts_witness:
  "sample_order_rows ! 1 \<in> set sample_order_rows \<and> 3 < length (sample_order_rows ! 1) \<and>
   strip (sample_order_rows ! 1 ! 3) \<noteq> ''Sources:'' \<and>
   py_int (sub_commas (strip (sample_order_rows ! 1 ! 3))) = Inl ValueError \<and>
   sample_order_rows = [sample_order_rows ! 0] @ sample_order_rows ! 1 # [sample_order_rows ! 2] \<and>
   order_rows sample_float_env [sample_order_rows ! 0] [] = Inr [(''George Washington'', 8, 8)] \<and>
   get_list_of_executive_orders sample_float_env (\<lambda>title. Inr sample_order_rows) =
     Inl ValueError \<and>
   (''Japan'', ''since 660 BC'') \<in> set [(''France'', ''1958''), (''Japan'', ''since 660 BC'')] \<and>
   ''Japan'' \<notin> set [''Czechia'', ''Palestine''] \<and>
   first_four_digits ''since 660 BC'' = None \<and>
   founding_loop [(''France'', ''1958''), (''Japan'', ''since 660 BC'')] [] = Inl IndexError"
proof -
  have a: "sample_order_rows ! 1 \<in> set sample_order_rows \<and> 3 < length (sample_order_rows ! 1) \<and>
     strip (sample_order_rows ! 1 ! 3) \<noteq> ''Sources:'' \<and>
     py_int (sub_commas (strip (sample_order_rows ! 1 ! 3))) = Inl ValueError"
    by code_simp
  have b: "(''Japan'', ''since 660 BC'') \<in> set [(''France'', ''1958''), (''Japan'', ''since 660 BC'')] \<and>
     ''Japan'' \<notin> set [''Czechia'', ''Palestine''] \<and> first_four_digits ''since 660 BC'' = None"
    by code_simp
  have c: "sample_order_rows =
      [sample_order_rows ! 0] @ sample_order_rows ! 1 # [sample_order_rows ! 2] \<and>
      order_rows sample_float_env [sample_order_rows ! 0] [] = Inr [(''George Washington'', 8, 8)]"
    by code_simp
  note t = malformed_field_aborts [of "sample_order_rows ! 1" sample_order_rows ValueError
      sample_float_env "''Japan''" "''since 660 BC''"
      "[(''France'', ''1958''), (''Japan'', ''since 660 BC'')]" "[]"]
  have d: "get_list_of_executive_orders sample_float_env (\<lambda>title. Inr sample_order_rows) =
     Inl ValueError"
    using t [THEN conjunct1, THEN mp, OF a, THEN conjunct2, rule_format, OF c] .
  have e: "founding_loop [(''France'', ''1958''), (''Japan'', ''since 660 BC'')] [] = Inl IndexError"
    using t [THEN conjunct2, THEN mp, OF b] .
  from a b c d e show ?thesis by (simp only: simp_thms)
qed

lemma order_cells_sentinel:
  "\<forall>c \<in> set row. strip c = ''Sources:'' \<Longrightarrow> order_cells fenv i row tracker_list = Inr tracker_list"
  by (induction row arbitrary: i) simp_all

lemma order_rows_sentinel:
  assumes "\<forall>c \<in> set row. strip c = ''Sources:''"
  shows "order_rows fenv (pre @ row # post) d = order_rows fenv (pre @ post) d"
proof -
  have "order_rows fenv (row # post) d' = order_rows fenv post d'" for d'
    by (simp add: order_cells_sentinel [OF assms] add_order_def)
  then show ?thesis
    by (simp add: order_rows_append split: sum.splits del: order_rows.simps)
qed

lemma scenario_facts:
  "split_on [CHR 0x0A] ''France'' = [''France'']"
  "split_on [CHR 0x0A] ''1958'' = [''1958'']"
  "split_on [CHR 0x0A] ''Sources:'' = [''Sources:'']"
  "split_on [CHR 0x0A] [] = [[]]"
  "split_on [CHR 0x0A] ''Japan'' = [''Japan'']"
  "split_on [CHR 0x0A] ''1947 (current constitution)'' = [''1947 (current constitution)'']"
  "clean_nation ''France'' = ''France''" "strip ''France'' = ''France''"
  "clean_nation ''Japan'' = ''Japan''" "strip ''Japan'' = ''Japan''"
  "clean_nation ''Sources:'' = ''Sources:''" "strip ''Sources:'' = ''Sources:''"
  "is_digit CHR ''1''"
  "first_four_digits ''1958'' = Some ''1958''"
  "first_four_digits ''1947 (current constitution)'' = Some ''1947''"
  by code_simp+

lemma scenario_row_france:
  assumes h: "is_valid_country nations ''France''"
  shows "nation_cells nations 0 [''France'', ''1958''] None (nt, dt) =
      (if ''France'' \<in> set nt then Inr (nt, dt) else Inr (nt @ [''France''], dt @ [''1958'']))"
  using h by (simp add: scenario_facts date_part_def date_of_row_def Let_def)

lemma scenario_row_sources:
  assumes h: "\<not> is_valid_country nations ''Sources:''"
  shows "nation_cells nations 0 [''Sources:'', []] None (nt, dt) = Inr (nt, dt)"
  using h by (simp add: scenario_facts date_part_def date_of_row_def Let_def)

lemma scenario_row_japan:
  assumes h: "is_valid_country nations ''Japan''"
  shows "nation_cells nations 0 [''Japan'', ''1947 (current constitution)''] None (nt, dt) =
      (if ''Japan'' \<in> set nt then Inr (nt, dt)
       else Inr (nt @ [''Japan''], dt @ [''1947 (current constitution)'']))"
  using h by (simp add: scenario_facts date_part_def date_of_row_def Let_def)

lemma scenario_trackers:
  assumes h: "is_valid_country nations ''France''" "is_valid_country nations ''Japan''"
    "\<not> is_valid_country nations ''Sources:''"
  shows "nation_rows nations scenario_rows ([], []) =
      Inr ([''France'', ''Japan''], [''1958'', ''1947 (current constitution)''])"
  by (simp add: scenario_rows_def scenario_row_france [OF h(1)] scenario_row_sources [OF h(3)]
        scenario_row_japan [OF h(2)] del: nation_cells.simps)

lemma scenario_trackers_without_sources:
  assumes h: "is_valid_country nations ''France''" "is_valid_country nations ''Japan''"
    "\<not> is_valid_country nations ''Sources:''"
  shows "nation_rows nations [scenario_rows ! 0, scenario_rows ! 2] ([], []) =
      Inr ([''France'', ''Japan''], [''1958'', ''1947 (current constitution)''])"
  by (simp add: scenario_rows_def scenario_row_france [OF h(1)] scenario_row_sources [OF h(3)]
        scenario_row_japan [OF h(2)] del: nation_cells.simps)

lemma scenario_founding_loop:
  "founding_loop (zip [''France'', ''Japan''] [''1958'', ''1947 (current constitution)'']) [] =
   Inr [(''France'', ''1958''), (''Japan'', ''1947'')]"
  by code_simp

text \<open>
  Claim C9.  For every nation dictionary that knows France and Japan and does not know
  \<open>Sources:\<close>, the extraction of the founding dates from the three rows of the scenario
  gives exactly the two entries France with 1958 and Japan with 1947 (the year is kept
  as its four digits), and the row \<open>Sources:\<close> adds nothing to the trackers.  In the
  extraction of the executive orders, a row all of whose cells are the text
  \<open>Sources:\<close> can be left out without changing the result.
\<close>

theorem scenario_extraction:
  "(is_valid_country nations ''France'' \<and> is_valid_country nations ''Japan'' \<and>
    \<not> is_valid_country nations ''Sources:''
      \<longrightarrow> nation_founding_date_processing_function nations scenario_fetch title =
            Inr [(''France'', ''1958''), (''Japan'', ''1947'')] \<and>
          nation_rows nations scenario_rows ([], []) =
            nation_rows nations [scenario_rows ! 0, scenario_rows ! 2] ([], [])) \<and>
   ((\<forall>c \<in> set row. strip c = ''Sources:'')
      \<longrightarrow> order_rows fenv (pre @ row # post) executive_orders =
            order_rows fenv (pre @ post) executive_orders)"
proof (intro conjI impI)
  assume h: "is_valid_country nations ''France'' \<and> is_valid_country nations ''Japan'' \<and>
    \<not> is_valid_country nations ''Sources:''"
  then have h1: "is_valid_country nations ''France''" and h2: "is_valid_country nations ''Japan''"
    and h3: "\<not> is_valid_country nations ''Sources:''" by blast+
  show "nation_founding_date_processing_function nations scenario_fetch title =
            Inr [(''France'', ''1958''), (''Japan'', ''1947'')]"
    by (simp only: nation_founding_date_processing_function_def scenario_fetch_def
        scenario_trackers [OF h1 h2 h3] sum.case prod.case scenario_founding_loop)
  show "nation_rows nations scenario_rows ([], []) =
            nation_rows nations [scenario_rows ! 0, scenario_rows ! 2] ([], [])"
    by (simp only: scenario_trackers [OF h1 h2 h3] scenario_trackers_without_sources [OF h1 h2 h3])
next
  assume "\<forall>c \<in> set row. strip c = ''Sources:''"
  then show "order_rows fenv (pre @ row # post) executive_orders =
            order_rows fenv (pre @ post) executive_orders"
    by (rule order_rows_sentinel)
qed

text \<open>Claim C9 on the sample nations.\<close>

theorem scenario_extraction_witness:
  "is_valid_country sample_nations ''France'' \<and> is_valid_country sample_nations ''Japan'' \<and>
   \<not> is_valid_country sample_nations ''Sources:'' \<and>
   nation_founding_date_processing_function sample_nations scenario_fetch
     ''List of sovereign states by dates of formation'' =
     Inr [(''France'', ''1958''), (''Japan'', ''1947'')] \<and>
   strip ''Sources:'' = ''Sources:'' \<and>
   order_rows sample_float_env ([] @ [''Sources:''] # []) [] = order_rows sample_float_env ([] @ []) []"
proof -
  have a: "is_valid_country sample_nations ''France'' \<and> is_valid_country sample_nations ''Japan'' \<and>
     \<not> is_valid_country sample_nations ''Sources:''"
    by code_simp
  have b: "\<forall>c \<in> set [''Sources:'']. strip c = ''Sources:''"
    by (simp add: scenario_facts)
  note t = scenario_extraction [of sample_nations
      "''List of sovereign states by dates of formation''" "[''Sources:'']" sample_float_env
      "[]" "[]" "[]"]
  have c: "nation_founding_date_processing_function sample_nations scenario_fetch
     ''List of sovereign states by dates of formation'' =
     Inr [(''France'', ''1958''), (''Japan'', ''1947'')]"
    using t [THEN conjunct1, THEN mp, OF a] by (rule conjunct1)
  have d: "order_rows sample_float_env ([] @ [''Sources:''] # []) [] =
     order_rows sample_float_env ([] @ []) []"
    using t [THEN conjunct2, THEN mp, OF b] .
  from a have a1: "is_valid_country sample_nations ''France''"
    and a2: "is_valid_country sample_nations ''Japan''"
    and a3: "\<not> is_valid_country sample_nations ''Sources:''" by blast+
  have b': "strip ''Sources:'' = ''Sources:''" by (simp add: scenario_facts)
  show ?thesis
    by (intro conjI) (fact a1 a2 a3 b' c d)+
qed

end
